theory Spec2Isabelle
  imports Main
begin

section \<open>JavaScript values\<close>

text \<open>
  The browser scripts \<^verbatim>\<open>public/index.js\<close> and \<^verbatim>\<open>public/dash-teacher.js\<close> handle
  values that come out of JSON bodies and form fields. \<open>Undefined\<close> is what a missing
  property or a missing element reads as. Numbers are restricted to integers, strings are
  lists of \<^typ>\<open>char\<close>.
\<close>

datatype jsval =
    Undefined
  | Null
  | Bool bool
  | Num int
  | Str string
  | Arr "jsval list"
  | Obj "(string \<times> jsval) list"

datatype error = TypeError | SyntaxError

definition nullish :: "jsval \<Rightarrow> bool" where
  "nullish v = (v = Undefined \<or> v = Null)"

text \<open>
  \<open>field v k\<close> is the property read \<^verbatim>\<open>v.k\<close> for the property names the scripts use
  (\<^verbatim>\<open>username\<close>, \<^verbatim>\<open>isAdmin\<close>, \<^verbatim>\<open>id\<close>, \<^verbatim>\<open>Assignments\<close>, \<^verbatim>\<open>assignmentName\<close>,
  \<^verbatim>\<open>assignmentDate\<close>, \<^verbatim>\<open>authToken\<close>, \<^verbatim>\<open>message\<close>, \<^verbatim>\<open>location\<close>) on a value that is
  neither \<^verbatim>\<open>undefined\<close> nor \<^verbatim>\<open>null\<close>: the stored value of an object, \<^verbatim>\<open>undefined\<close>
  otherwise. On \<^verbatim>\<open>undefined\<close> and \<^verbatim>\<open>null\<close> the read throws a TypeError, which is
  \<open>get\<close>.
\<close>

fun field :: "jsval \<Rightarrow> string \<Rightarrow> jsval" where
  "field (Obj kvs) k = (case map_of kvs k of None \<Rightarrow> Undefined | Some v \<Rightarrow> v)"
| "field _ k = Undefined"

definition get :: "jsval \<Rightarrow> string \<Rightarrow> error + jsval" where
  "get v k = (if nullish v then Inl TypeError else Inr (field v k))"

text \<open>
  \<^verbatim>\<open>a === b\<close>: primitives are compared by value; an array or an object is only equal
  to itself as a reference, and the scripts never compare a reference with itself.
\<close>

fun strict_eq :: "jsval \<Rightarrow> jsval \<Rightarrow> bool" where
  "strict_eq (Arr _) _ = False"
| "strict_eq (Obj _) _ = False"
| "strict_eq a b = (a = b)"

definition digit :: "nat \<Rightarrow> char" where
  "digit d = ''0123456789'' ! d"

function decimal :: "nat \<Rightarrow> string" where
  "decimal n = (if n < 10 then [digit n] else decimal (n div 10) @ [digit (n mod 10)])"
  by pat_completeness auto
termination
  by (relation "measure id") auto

declare decimal.simps [simp del]

fun join :: "string \<Rightarrow> string list \<Rightarrow> string" where
  "join sep [] = []"
| "join sep [x] = x"
| "join sep (x # y # ys) = x @ sep @ join sep (y # ys)"

text \<open>The conversion to a string that a template literal \<^verbatim>\<open>${v}\<close> and \<^verbatim>\<open>'...' + v\<close> apply.\<close>

fun to_string :: "jsval \<Rightarrow> string" where
  "to_string Undefined = ''undefined''"
| "to_string Null = ''null''"
| "to_string (Bool b) = (if b then ''true'' else ''false'')"
| "to_string (Num n) = (if n < 0 then CHR ''-'' # decimal (nat (- n)) else decimal (nat n))"
| "to_string (Str s) = s"
| "to_string (Arr xs) = join '','' (map (\<lambda>x. if nullish x then [] else to_string x) xs)"
| "to_string (Obj kvs) = ''[object Object]''"

section \<open>The JSON built-in\<close>

text \<open>
  \<^verbatim>\<open>JSON.stringify\<close> and \<^verbatim>\<open>JSON.parse\<close> belong to the browser, not to the repository. The
  scripts are modelled over any such pair \<open>J\<close>; \<open>JSON_parse J text = None\<close> stands for the
  SyntaxError that \<^verbatim>\<open>JSON.parse\<close> throws.
\<close>

record json_lib =
  JSON_stringify :: "jsval \<Rightarrow> string"
  JSON_parse :: "string \<Rightarrow> jsval option"

text \<open>
  One such pair, for compact JSON texts (no white space) of \<^verbatim>\<open>null\<close>, booleans, integers,
  strings with the escapes \<^verbatim>\<open>\"\<close> and \<^verbatim>\<open>\\\<close>, arrays and objects. It is used to run the
  scripts on concrete inputs. For \<^verbatim>\<open>undefined\<close>, where \<^verbatim>\<open>JSON.stringify\<close> returns no string,
  it gives the text \<^verbatim>\<open>undefined\<close> that then reaches the cookie; inside an array
  \<^verbatim>\<open>undefined\<close> is written \<^verbatim>\<open>null\<close>, and a property with that value is left out.
\<close>

definition dq :: char where
  "dq = CHR 0x22"

definition bs :: char where
  "bs = CHR 0x5C"

fun escape :: "string \<Rightarrow> string" where
  "escape [] = []"
| "escape (c # cs) = (if c = dq \<or> c = bs then bs # c # escape cs else c # escape cs)"

definition quote :: "string \<Rightarrow> string" where
  "quote s = dq # escape s @ [dq]"

fun compact_stringify :: "jsval \<Rightarrow> string" where
  "compact_stringify Undefined = ''undefined''"
| "compact_stringify Null = ''null''"
| "compact_stringify (Bool b) = (if b then ''true'' else ''false'')"
| "compact_stringify (Num n) = to_string (Num n)"
| "compact_stringify (Str s) = quote s"
| "compact_stringify (Arr xs) =
     ''['' @ join '','' (map (\<lambda>x. if x = Undefined then ''null'' else compact_stringify x) xs) @ '']''"
| "compact_stringify (Obj kvs) =
     ''{'' @ join '','' (map (\<lambda>(k, v). quote k @ '':'' @ compact_stringify v)
                            (filter (\<lambda>(k, v). v \<noteq> Undefined) kvs)) @ ''}''"

fun string_body :: "string \<Rightarrow> (string \<times> string) option" where
  "string_body [] = None"
| "string_body (c # cs) =
     (if c = dq then Some ([], cs)
      else if c = bs then
        (case cs of
           [] \<Rightarrow> None
         | d # ds \<Rightarrow>
             if d = dq \<or> d = bs
             then (case string_body ds of None \<Rightarrow> None | Some (s, r) \<Rightarrow> Some (d # s, r))
             else None)
      else (case string_body cs of None \<Rightarrow> None | Some (s, r) \<Rightarrow> Some (c # s, r)))"

definition is_digit :: "char \<Rightarrow> bool" where
  "is_digit c = (c \<in> set ''0123456789'')"

definition digits_value :: "string \<Rightarrow> int" where
  "digits_value ds = foldl (\<lambda>a c. 10 * a + (int (of_char c) - 48)) 0 ds"

definition number :: "string \<Rightarrow> (jsval \<times> string) option" where
  "number cs =
     (let neg = (take 1 cs = ''-'');
          r = (if neg then drop 1 cs else cs);
          ds = takeWhile is_digit r
      in if ds = [] then None
         else Some (Num ((if neg then - 1 else 1) * digits_value ds), dropWhile is_digit r))"

fun parse_value :: "nat \<Rightarrow> string \<Rightarrow> (jsval \<times> string) option"
  and parse_elements :: "nat \<Rightarrow> string \<Rightarrow> (jsval list \<times> string) option"
  and parse_members :: "nat \<Rightarrow> string \<Rightarrow> ((string \<times> jsval) list \<times> string) option"
where
  "parse_value 0 cs = None"
| "parse_value (Suc n) cs =
     (if take 4 cs = ''null'' then Some (Null, drop 4 cs)
      else if take 4 cs = ''true'' then Some (Bool True, drop 4 cs)
      else if take 5 cs = ''false'' then Some (Bool False, drop 5 cs)
      else if take 1 cs = [dq] then
        (case string_body (drop 1 cs) of None \<Rightarrow> None | Some (s, r) \<Rightarrow> Some (Str s, r))
      else if take 2 cs = ''[]'' then Some (Arr [], drop 2 cs)
      else if take 1 cs = ''['' then
        (case parse_elements n (drop 1 cs) of None \<Rightarrow> None | Some (vs, r) \<Rightarrow> Some (Arr vs, r))
      else if take 2 cs = ''{}'' then Some (Obj [], drop 2 cs)
      else if take 1 cs = ''{'' then
        (case parse_members n (drop 1 cs) of None \<Rightarrow> None | Some (kvs, r) \<Rightarrow> Some (Obj kvs, r))
      else number cs)"
| "parse_elements 0 cs = None"
| "parse_elements (Suc n) cs =
     (case parse_value n cs of
        None \<Rightarrow> None
      | Some (v, r) \<Rightarrow>
          if take 1 r = '']'' then Some ([v], drop 1 r)
          else if take 1 r = '','' then
            (case parse_elements n (drop 1 r) of
               None \<Rightarrow> None
             | Some (vs, r') \<Rightarrow> Some (v # vs, r'))
          else None)"
| "parse_members 0 cs = None"
| "parse_members (Suc n) cs =
     (if take 1 cs = [dq] then
        (case string_body (drop 1 cs) of
           None \<Rightarrow> None
         | Some (k, r) \<Rightarrow>
             if take 1 r = '':'' then
               (case parse_value n (drop 1 r) of
                  None \<Rightarrow> None
                | Some (v, r') \<Rightarrow>
                    if take 1 r' = ''}'' then Some ([(k, v)], drop 1 r')
                    else if take 1 r' = '','' then
                      (case parse_members n (drop 1 r') of
                         None \<Rightarrow> None
                       | Some (kvs, r'') \<Rightarrow> Some ((k, v) # kvs, r''))
                    else None)
             else None)
      else None)"

definition compact_parse :: "string \<Rightarrow> jsval option" where
  "compact_parse text =
     (case parse_value (2 * length text + 2) text of
        None \<Rightarrow> None
      | Some (v, r) \<Rightarrow> if r = [] then Some v else None)"

definition compact_json :: json_lib where
  "compact_json = \<lparr>JSON_stringify = compact_stringify, JSON_parse = compact_parse\<rparr>"

section \<open>The state of a page\<close>

text \<open>
  \<^verbatim>\<open>const APP = { JWT_TOKEN: {}, lastAssignments: [] }\<close> at the top of index.js.
  dash-teacher.js also reads \<^verbatim>\<open>APP.LOGIN_INFO\<close>, a property that no statement of either
  script assigns; it is \<open>Undefined\<close> unless something else has set it.
\<close>

record app =
  JWT_TOKEN :: jsval
  lastAssignments :: "jsval list"
  LOGIN_INFO :: jsval

definition APP_init :: app where
  "APP_init = \<lparr>JWT_TOKEN = Obj [], lastAssignments = [], LOGIN_INFO = Undefined\<rparr>"

datatype http_method = GET | POST

text \<open>The settings object handed to \<^verbatim>\<open>$.ajax\<close>, without its callbacks.\<close>

record request =
  req_type :: http_method  url :: string
  data :: "string option"
  headers :: "(string \<times> string) list"
  contentType :: "string option"

text \<open>
  The callbacks of a request, named after the request they belong to: each names the
  \<^verbatim>\<open>success\<close> and \<^verbatim>\<open>error\<close> functions written next to that \<^verbatim>\<open>$.ajax\<close> call.
\<close>

datatype callback =
    SignUp
  | Login
  | Login_users
  | Protected
  | AddItem_users
  | AddItem_create
  | Dash_users
  | Dash_create
  | LoadUsers

text \<open>
  What the scripts read and write: the \<^verbatim>\<open>APP\<close> object, the cookie jar behind
  \<^verbatim>\<open>Cookies.get\<close>/\<^verbatim>\<open>Cookies.set\<close>, \<^verbatim>\<open>window.location.href\<close>, the values of the form
  fields (\<open>val s sel\<close> is \<^verbatim>\<open>$(sel).val()\<close>), the two error elements of the sign-up form
  with their visibility, the fragments appended to \<^verbatim>\<open>.showAssignment\<close> and set into
  \<^verbatim>\<open>.showStudents-js\<close>, the requests in flight with their callbacks, every request issued
  so far, the exceptions that escaped a handler, and whether the submit handler of each
  script is bound. Output to the console is not part of the page and is left out.
\<close>

record page =
  APP :: app
  cookies :: "string \<rightharpoonup> string"
  href :: string
  val :: "string \<Rightarrow> jsval"
  errorsUser :: string
  errorsPass :: string
  errorsUser_shown :: bool
  errorsPass_shown :: bool
  showAssignment :: "string list"
  showStudents :: "string list"
  pending :: "(callback \<times> request) list"
  sent :: "request list"
  uncaught :: "error list"
  submit_bound :: bool
  dash_bound :: bool

definition throw :: "error \<Rightarrow> page \<Rightarrow> page" where
  "throw e s = s\<lparr>uncaught := uncaught s @ [e]\<rparr>"

definition ajax :: "callback \<Rightarrow> request \<Rightarrow> page \<Rightarrow> page" where
  "ajax cb r s = s\<lparr>pending := pending s @ [(cb, r)], sent := sent s @ [r]\<rparr>"

section \<open>index.js\<close>

definition sendSignUp :: "page \<Rightarrow> page" where
  "sendSignUp s = s\<lparr>href := ''sign-up.html''\<rparr>"

definition sendLogin :: "page \<Rightarrow> page" where
  "sendLogin s = s\<lparr>href := ''login.html''\<rparr>"

subsection \<open>The token cookie\<close>

definition saveLoginToken :: "json_lib \<Rightarrow> page \<Rightarrow> page" where
  "saveLoginToken J s =
     s\<lparr>cookies := (cookies s)(''APP_TOKEN'' \<mapsto> JSON_stringify J (JWT_TOKEN (APP s)))\<rparr>"

text \<open>
  \<^verbatim>\<open>Cookies.get\<close> gives \<^verbatim>\<open>undefined\<close> for a missing cookie; \<^verbatim>\<open>if (savedTokenJSONStr)\<close>
  is also false for the empty string.
\<close>

definition restoreLoginToken :: "json_lib \<Rightarrow> page \<Rightarrow> error + page" where
  "restoreLoginToken J s =
     (case cookies s ''APP_TOKEN'' of
        None \<Rightarrow> Inr s
      | Some savedTokenJSONStr \<Rightarrow>
          if savedTokenJSONStr = [] then Inr s
          else (case JSON_parse J savedTokenJSONStr of
                  None \<Rightarrow> Inl SyntaxError
                | Some v \<Rightarrow> Inr (s\<lparr>APP := (APP s)\<lparr>JWT_TOKEN := v\<rparr>\<rparr>)))"

subsection \<open>Sign-up\<close>

definition signUpForm :: "json_lib \<Rightarrow> page \<Rightarrow> page" where
  "signUpForm J s =
     ajax SignUp
       \<lparr>req_type = POST, url = ''/api/users'',
        data = Some (JSON_stringify J (Obj
          [(''username'', val s ''#username''),
           (''password'', val s ''#password''),
           (''firstName'', val s ''#firstName''),
           (''lastName'', val s ''#lastName''),
           (''isAdmin'', val s ''input[name=isAdmin]:checked''),
           (''Assignments'', Arr [Obj [(''assignmentName'', Str []), (''assignmentDate'', Str [])]])])),
        headers = [], contentType = Some ''application/json''\<rparr> s"

definition signUp_success :: "jsval \<Rightarrow> page \<Rightarrow> page" where
  "signUp_success response s = s\<lparr>href := ''login.html''\<rparr>"

text \<open>\<open>responseJSON\<close> is \<^verbatim>\<open>err.responseJSON\<close>, \<open>Undefined\<close> when the body was not JSON.\<close>

definition signUp_error :: "jsval \<Rightarrow> page \<Rightarrow> page" where
  "signUp_error responseJSON s =
     (if nullish responseJSON then throw TypeError s
      else
        let s1 = s\<lparr>errorsUser := ''Username '' @ to_string (field responseJSON ''message'') @ ''!''\<rparr>;
            s2 = s1\<lparr>errorsPass := ''Password '' @ to_string (field responseJSON ''message'') @ ''!''\<rparr>
        in if strict_eq (field responseJSON ''location'') (Str ''username'')
           then s2\<lparr>errorsPass_shown := False, errorsUser_shown := True\<rparr>
           else if strict_eq (field responseJSON ''location'') (Str ''password'')
           then s2\<lparr>errorsUser_shown := False, errorsPass_shown := True\<rparr>
           else s2)"

subsection \<open>Adding an assignment\<close>

definition pad :: string where
  "pad = replicate 28 (CHR '' '')"

definition nl :: string where
  "nl = [CHR 0x0A]"

definition item_html :: "jsval \<Rightarrow> jsval \<Rightarrow> string" where
  \<open>item_html userObj a =
     nl @ pad @ ''<li>'' @
     nl @ pad @ ''<span>Username: '' @ to_string (field userObj ''username'') @
       '' Assignment: '' @ to_string (field a ''assignmentName'') @
       '' Date: '' @ to_string (field a ''assignmentDate'') @ ''</span>'' @
     nl @ pad @ ''<button class="assignment-item-update">'' @
     nl @ pad @ ''<span class="button-label">update</span>'' @
     nl @ pad @ ''</button>'' @
     nl @ pad @ ''<button class="assignment-item-delete">'' @
     nl @ pad @ ''<span class="button-label">delete</span>'' @
     nl @ pad @ ''</button><br></li>''\<close>

text \<open>
  The loop of \<^verbatim>\<open>createList\<close> over \<^verbatim>\<open>userObj.Assignments\<close>, here the list \<open>as\<close>; reading a
  property of an element that is \<^verbatim>\<open>null\<close> throws and ends the loop.
\<close>

fun createList_loop :: "jsval \<Rightarrow> jsval list \<Rightarrow> page \<Rightarrow> page" where
  "createList_loop userObj [] s = s"
| "createList_loop userObj (a # as) s =
     (if nullish a then throw TypeError s
      else createList_loop userObj as
             (s\<lparr>showAssignment := showAssignment s @ [item_html userObj a]\<rparr>))"

definition createList :: "jsval \<Rightarrow> jsval list \<Rightarrow> page \<Rightarrow> page" where
  "createList userObj as s = createList_loop userObj as (s\<lparr>showAssignment := []\<rparr>)"

text \<open>The loop of \<^verbatim>\<open>studentUsers\<close> over the users array; there is no \<^verbatim>\<open>break\<close>.\<close>

fun studentUsers :: "json_lib \<Rightarrow> jsval list \<Rightarrow> page \<Rightarrow> page" where
  "studentUsers J [] s = s"
| "studentUsers J (u # us) s =
     (if nullish u then throw TypeError s
      else if strict_eq (field u ''username'') (val s ''#username'') \<and>
              strict_eq (field u ''isAdmin'') (Bool False)
      then studentUsers J us
             (ajax AddItem_create
                \<lparr>req_type = POST, url = ''/api/users/'' @ to_string (field u ''id''),
                 data = Some (JSON_stringify J (Obj
                   [(''id'', field u ''id''),
                    (''assignmentName'', val s ''#js-assignment-name''),
                    (''assignmentDate'', val s ''#js-assignment-date'')])),
                 headers = [], contentType = Some ''application/json''\<rparr> s)
      else studentUsers J us s)"

definition handleAddItem :: "page \<Rightarrow> page" where
  "handleAddItem s =
     ajax AddItem_users
       \<lparr>req_type = GET, url = ''/api/users'', data = None, headers = [], contentType = None\<rparr> s"

subsection \<open>Login\<close>

definition loginForm :: "json_lib \<Rightarrow> page \<Rightarrow> page" where
  "loginForm J s =
     ajax Login
       \<lparr>req_type = POST, url = ''/api/auth/login'',
        data = Some (JSON_stringify J (Obj
          [(''username'', val s ''#username''), (''password'', val s ''#password'')])),
        headers = [], contentType = Some ''application/json''\<rparr> s"

definition login_success :: "json_lib \<Rightarrow> jsval \<Rightarrow> page \<Rightarrow> page" where
  "login_success J response s =
     ajax Login_users
       \<lparr>req_type = GET, url = ''/api/users/'', data = None, headers = [],
        contentType = Some ''application/json''\<rparr>
       (saveLoginToken J (s\<lparr>APP := (APP s)\<lparr>JWT_TOKEN := response\<rparr>\<rparr>))"

text \<open>The loop of \<^verbatim>\<open>successful\<close> over the users array \<^verbatim>\<open>jsonRes\<close>.\<close>

fun successful :: "jsval list \<Rightarrow> page \<Rightarrow> page" where
  "successful [] s = s"
| "successful (u # us) s =
     (if nullish u then throw TypeError s
      else if strict_eq (field u ''username'') (val s ''#username'') \<and>
              strict_eq (field u ''isAdmin'') (Bool True)
      then (case get (JWT_TOKEN (APP s)) ''authToken'' of
              Inl e \<Rightarrow> throw e s
            | Inr authToken \<Rightarrow>
                successful us
                  (ajax Protected
                     \<lparr>req_type = GET, url = ''/api/protected'', data = None,
                      headers = [(''Authorization'', ''Bearer '' @ to_string authToken)],
                      contentType = None\<rparr> s))
      else successful us s)"

definition loadAuthorized :: "jsval \<Rightarrow> page \<Rightarrow> page" where
  "loadAuthorized success s = s\<lparr>href := ''teacher-dash.html''\<rparr>"

text \<open>\<^verbatim>\<open>unauthorized\<close> only writes the error to the console.\<close>

definition unauthorized :: "jsval \<Rightarrow> page \<Rightarrow> page" where
  "unauthorized err s = s"

subsection \<open>Page load and form submission\<close>

text \<open>
  The function handed to \<^verbatim>\<open>$(...)\<close>: it restores the token and then binds the submit
  handler. An exception of \<open>restoreLoginToken\<close> leaves the function before the handler
  is bound.
\<close>

definition ready :: "json_lib \<Rightarrow> page \<Rightarrow> page" where
  "ready J s =
     (case restoreLoginToken J s of
        Inl e \<Rightarrow> throw e s
      | Inr s' \<Rightarrow> s'\<lparr>submit_bound := True\<rparr>)"

text \<open>
  Loading a document that includes index.js runs the script from its first line: \<^verbatim>\<open>APP\<close> is
  the initial object, nothing is in flight and no handler is bound; the cookies and the
  address stay. Then the ready function runs.
\<close>

definition load :: "json_lib \<Rightarrow> page \<Rightarrow> page" where
  "load J s =
     ready J (s\<lparr>APP := APP_init, pending := [], submit_bound := False, dash_bound := False\<rparr>)"

text \<open>
  The handler bound to \<^verbatim>\<open>submit\<close>; \<open>name\<close> is \<^verbatim>\<open>target.attr('name')\<close>. The branch for
  \<^verbatim>\<open>list-items\<close> only writes to the console.
\<close>

definition submit :: "json_lib \<Rightarrow> string \<Rightarrow> page \<Rightarrow> page" where
  "submit J name s =
     (let s1 = (if name = ''signup'' then signUpForm J s else s);
          s2 = (if name = ''login'' then loginForm J s1 else s1)
      in if name = ''js-assignment-list-form'' then handleAddItem s2 else s2)"

section \<open>dash-teacher.js\<close>

definition dash_item_html :: "jsval \<Rightarrow> string" where
  \<open>dash_item_html a =
     nl @ pad @ ''<li>'' @
     nl @ pad @ ''<span>Assignment: <b class="assignmentColor">'' @
       to_string (field a ''assignmentName'') @
       ''</b> Due Date: <b class="assignmentColor">'' @
       to_string (field a ''assignmentDate'') @ ''</b></span>'' @
     nl @ pad @ ''<button class="assignment-item-update button-label">Edit</button>'' @
     nl @ pad @ ''<button class="assignment-item-delete button-label">Delete</button>'' @
     nl @ pad @ ''</li>''\<close>

fun dash_createList_loop :: "jsval list \<Rightarrow> page \<Rightarrow> page" where
  "dash_createList_loop [] s = s"
| "dash_createList_loop (a # as) s =
     (if nullish a then throw TypeError s
      else dash_createList_loop as (s\<lparr>showAssignment := showAssignment s @ [dash_item_html a]\<rparr>))"

definition dash_createList :: "jsval \<Rightarrow> jsval list \<Rightarrow> page \<Rightarrow> page" where
  "dash_createList userObj as s =
     dash_createList_loop as
       (s\<lparr>showAssignment := [''<h3>'' @ to_string (field userObj ''username'') @ ''</h3>'']\<rparr>)"

text \<open>
  As \<open>studentUsers\<close> of index.js, with an \<^verbatim>\<open>Authorization\<close> header read from
  \<^verbatim>\<open>APP.LOGIN_INFO.authToken\<close>; the read throws when \<^verbatim>\<open>APP.LOGIN_INFO\<close> is
  \<^verbatim>\<open>undefined\<close>, before the request is made.
\<close>

fun dash_studentUsers :: "json_lib \<Rightarrow> jsval list \<Rightarrow> page \<Rightarrow> page" where
  "dash_studentUsers J [] s = s"
| "dash_studentUsers J (u # us) s =
     (if nullish u then throw TypeError s
      else if strict_eq (field u ''username'') (val s ''#username'') \<and>
              strict_eq (field u ''isAdmin'') (Bool False)
      then (case get (LOGIN_INFO (APP s)) ''authToken'' of
              Inl e \<Rightarrow> throw e s
            | Inr authToken \<Rightarrow>
                dash_studentUsers J us
                  (ajax Dash_create
                     \<lparr>req_type = POST, url = ''/api/users/'' @ to_string (field u ''id''),
                      data = Some (JSON_stringify J (Obj
                        [(''id'', field u ''id''),
                         (''assignmentName'', val s ''#js-assignment-name''),
                         (''assignmentDate'', val s ''#js-assignment-date'')])),
                      headers = [(''Authorization'', ''Bearer '' @ to_string authToken)],
                      contentType = Some ''application/json''\<rparr> s))
      else dash_studentUsers J us s)"

definition dash_handleAddItem :: "page \<Rightarrow> page" where
  "dash_handleAddItem s =
     ajax Dash_users
       \<lparr>req_type = GET, url = ''/api/users'', data = None, headers = [], contentType = None\<rparr> s"

definition option_html :: "jsval \<Rightarrow> string" where
  \<open>option_html u =
     ''<option value="'' @ to_string (field u ''username'') @ ''">'' @
     to_string (field u ''username'') @ ''</option>''\<close>

text \<open>The loop of \<^verbatim>\<open>loadUsers\<close> that fills the local array \<^verbatim>\<open>list\<close>.\<close>

fun loadUsers_loop :: "jsval list \<Rightarrow> string list \<Rightarrow> error + string list" where
  "loadUsers_loop [] list = Inr list"
| "loadUsers_loop (u # us) list =
     (if nullish u then Inl TypeError
      else if strict_eq (field u ''isAdmin'') (Bool False)
      then loadUsers_loop us (list @ [option_html u])
      else loadUsers_loop us list)"

definition loadUsers_success :: "jsval list \<Rightarrow> page \<Rightarrow> page" where
  "loadUsers_success users s =
     (case loadUsers_loop users [] of
        Inl e \<Rightarrow> throw e s
      | Inr list \<Rightarrow> s\<lparr>showStudents := list\<rparr>)"

definition loadUsers :: "page \<Rightarrow> page" where
  "loadUsers s =
     ajax LoadUsers
       \<lparr>req_type = GET, url = ''/api/users'', data = None, headers = [], contentType = None\<rparr> s"

definition dash_ready :: "page \<Rightarrow> page" where
  "dash_ready s = (loadUsers s)\<lparr>dash_bound := True\<rparr>"

definition dash_submit :: "string \<Rightarrow> page \<Rightarrow> page" where
  "dash_submit name s =
     (if name = ''js-assignment-list-form'' then dash_handleAddItem s else s)"

section \<open>Events\<close>

text \<open>
  The scripts run on one thread, one event at a time. An event is a page load, a call of
  one of the two navigation functions, a change of a form field, a form submission, or the
  reply to a request in flight: \<open>Success\<close> with the parsed body, or \<open>Failure\<close> with the
  status and \<^verbatim>\<open>responseJSON\<close>.
\<close>

datatype reply = Success jsval | Failure nat jsval

datatype event =
    Load
  | Call_sendSignUp
  | Call_sendLogin
  | Input string jsval
  | Submit string
  | Reply nat reply
  | Dash_Load
  | Dash_Submit string

text \<open>
  The loops of the callbacks run over arrays: the users of \<^verbatim>\<open>GET /api/users\<close> and the
  \<^verbatim>\<open>Assignments\<close> of the user that \<^verbatim>\<open>POST /api/users/:id\<close> returns. A body of another
  shape is not a reply of this model (\<open>on_success\<close> is \<open>None\<close> and the event is dropped).
\<close>

fun elements :: "jsval \<Rightarrow> jsval list option" where
  "elements (Arr xs) = Some xs"
| "elements _ = None"

fun on_success :: "json_lib \<Rightarrow> callback \<Rightarrow> jsval \<Rightarrow> page \<Rightarrow> page option" where
  "on_success J SignUp v s = Some (signUp_success v s)"
| "on_success J Login v s = Some (login_success J v s)"
| "on_success J Login_users v s = map_option (\<lambda>jsonRes. successful jsonRes s) (elements v)"
| "on_success J Protected v s = Some (loadAuthorized v s)"
| "on_success J AddItem_users v s =
     map_option (\<lambda>listUsers. studentUsers J listUsers s) (elements v)"
| "on_success J AddItem_create v s =
     map_option (\<lambda>as. createList v as s) (elements (field v ''Assignments''))"
| "on_success J Dash_users v s =
     map_option (\<lambda>listUsers. dash_studentUsers J listUsers s) (elements v)"
| "on_success J Dash_create v s =
     map_option (\<lambda>as. dash_createList v as s) (elements (field v ''Assignments''))"
| "on_success J LoadUsers v s = map_option (\<lambda>users. loadUsers_success users s) (elements v)"

text \<open>
  Only the sign-up request has an \<^verbatim>\<open>error\<close> function that changes the page. Those of
  the users request of the login, of the probe and of the two assignment requests write a
  line to the console; the login request and the three \<^verbatim>\<open>GET /api/users\<close> requests of
  \<open>handleAddItem\<close> and \<open>loadUsers\<close> have none at all.
\<close>

fun on_error :: "callback \<Rightarrow> nat \<Rightarrow> jsval \<Rightarrow> page \<Rightarrow> page" where
  "on_error SignUp status responseJSON s = signUp_error responseJSON s"
| "on_error Protected status responseJSON s = unauthorized responseJSON s"
| "on_error _ status responseJSON s = s"

definition remove_nth :: "nat \<Rightarrow> 'a list \<Rightarrow> 'a list" where
  "remove_nth i xs = take i xs @ drop (Suc i) xs"

definition deliver :: "json_lib \<Rightarrow> nat \<Rightarrow> reply \<Rightarrow> page \<Rightarrow> page" where
  "deliver J i rep s =
     (if i < length (pending s) then
        let cb = fst (pending s ! i);
            s' = s\<lparr>pending := remove_nth i (pending s)\<rparr>
        in (case rep of
              Success v \<Rightarrow> (case on_success J cb v s' of None \<Rightarrow> s | Some s'' \<Rightarrow> s'')
            | Failure status responseJSON \<Rightarrow> on_error cb status responseJSON s')
      else s)"

fun step :: "json_lib \<Rightarrow> event \<Rightarrow> page \<Rightarrow> page" where
  "step J Load s = load J s"
| "step J Call_sendSignUp s = sendSignUp s"
| "step J Call_sendLogin s = sendLogin s"
| "step J (Input sel v) s = s\<lparr>val := (val s)(sel := v)\<rparr>"
| "step J (Submit name) s = (if submit_bound s then submit J name s else s)"
| "step J (Reply i rep) s = deliver J i rep s"
| "step J Dash_Load s = dash_ready s"
| "step J (Dash_Submit name) s = (if dash_bound s then dash_submit name s else s)"

fun run :: "json_lib \<Rightarrow> event list \<Rightarrow> page \<Rightarrow> page" where
  "run J [] s = s"
| "run J (ev # evs) s = run J evs (step J ev s)"

text \<open>A document before any script has run: no cookie, empty form fields.\<close>

definition blank :: page where
  "blank =
     \<lparr>APP = APP_init, cookies = Map.empty, href = ''login.html'', val = (\<lambda>sel. Str []),
      errorsUser = [], errorsPass = [], errorsUser_shown = False, errorsPass_shown = False,
      showAssignment = [], showStudents = [], pending = [], sent = [], uncaught = [],
      submit_bound = False, dash_bound = False\<rparr>"

section \<open>Probes\<close>

text \<open>
  A probe is a \<^verbatim>\<open>GET /api/protected\<close> whose only header is \<^verbatim>\<open>Authorization: Bearer ...\<close>;
  \<open>probes_ok\<close> says that every request in flight whose callbacks are those of the probe is
  one.
\<close>

definition is_probe :: "request \<Rightarrow> bool" where
  "is_probe r =
     (req_type r = GET \<and> url r = ''/api/protected'' \<and>
      (case headers r of
         [(k, v)] \<Rightarrow> k = ''Authorization'' \<and> take 7 v = ''Bearer ''
       | _ \<Rightarrow> False))"

definition probes_ok :: "(callback \<times> request) list \<Rightarrow> bool" where
  "probes_ok ps = (\<forall>p\<in>set ps. fst p = Protected \<longrightarrow> is_probe (snd p))"

text \<open>
  What holds of every request the scripts send while the session token is \<open>tok\<close>: a request
  to \<^verbatim>\<open>/api/protected\<close> is the probe with the \<^verbatim>\<open>authToken\<close> of \<open>tok\<close> as its bearer, and
  any other \<^verbatim>\<open>GET\<close> has no header.
\<close>

definition sent_rule :: "jsval \<Rightarrow> request \<Rightarrow> bool" where
  "sent_rule tok r =
     (if url r = ''/api/protected''
      then r = \<lparr>req_type = GET, url = ''/api/protected'', data = None,
                 headers = [(''Authorization'', ''Bearer '' @ to_string (field tok ''authToken''))],
                 contentType = None\<rparr>
      else req_type r = GET \<longrightarrow> headers r = [])"

section \<open>A login, step by step\<close>

text \<open>
  Concrete pages for running the scripts: the user \<^verbatim>\<open>ann\<close> logs in on a fresh page and
  receives a token; the users list that comes back names her as an administrator, so that a
  probe is sent.
\<close>

definition token_abc :: jsval where
  "token_abc = Obj [(''authToken'', Str ''abc'')]"

definition user_ann :: jsval where
  "user_ann = Obj [(''id'', Str ''u1''), (''username'', Str ''ann''), (''isAdmin'', Bool True)]"

definition user_bob :: jsval where
  "user_bob = Obj [(''id'', Str ''u2''), (''username'', Str ''bob''), (''isAdmin'', Bool False)]"

definition after_login :: page where
  "after_login =
     run compact_json
       [Load, Input ''#username'' (Str ''ann''), Submit ''login'', Reply 0 (Success token_abc)]
       blank"

definition ann_typed :: page where
  "ann_typed = blank\<lparr>val := (val blank)(''#username'' := Str ''ann'')\<rparr>"

definition after_users :: page where
  "after_users = step compact_json (Reply 0 (Success (Arr [user_bob, user_ann]))) after_login"

text \<open>A fresh page whose cookie already holds the token.\<close>

definition token_page :: page where
  "token_page = blank\<lparr>cookies := [''APP_TOKEN'' \<mapsto> compact_stringify token_abc]\<rparr>"

text \<open>
  The bodies of two rejected sign-ups, a page with a sign-up in flight, and a user with
  two assignments as \<^verbatim>\<open>POST /api/users/:id\<close> returns it.
\<close>

definition duplicate_username :: jsval where
  "duplicate_username = Obj [(''message'', Str ''already taken''), (''location'', Str ''username'')]"

definition weak_password :: jsval where
  "weak_password = Obj [(''message'', Str ''too short''), (''location'', Str ''password'')]"

definition after_signup :: page where
  "after_signup = run compact_json [Load, Submit ''signup''] blank"

definition essay :: jsval where
  "essay = Obj [(''assignmentName'', Str ''Essay 1''), (''assignmentDate'', Str ''2024-10-01'')]"

definition scales :: jsval where
  "scales = Obj [(''assignmentName'', Str ''Scales''), (''assignmentDate'', Str ''2024-10-08'')]"

definition bob_assigned :: jsval where
  "bob_assigned = Obj [(''username'', Str ''bob''), (''Assignments'', Arr [essay, scales])]"

section \<open>Properties of the handlers\<close>

subsection \<open>What the handlers leave alone\<close>

lemma throw_frame [simp]:
  "APP (throw e s) = APP s" "cookies (throw e s) = cookies s" "href (throw e s) = href s"
  "val (throw e s) = val s" "sent (throw e s) = sent s" "pending (throw e s) = pending s"
  "showAssignment (throw e s) = showAssignment s" "showStudents (throw e s) = showStudents s"
  by (simp_all add: throw_def)

lemma ajax_frame [simp]:
  "APP (ajax cb r s) = APP s" "cookies (ajax cb r s) = cookies s" "href (ajax cb r s) = href s"
  "val (ajax cb r s) = val s" "sent (ajax cb r s) = sent s @ [r]"
  "pending (ajax cb r s) = pending s @ [(cb, r)]"
  "showAssignment (ajax cb r s) = showAssignment s" "showStudents (ajax cb r s) = showStudents s"
  by (simp_all add: ajax_def)

lemma successful_frame:
  "APP (successful us s) = APP s \<and> cookies (successful us s) = cookies s \<and>
   href (successful us s) = href s \<and> val (successful us s) = val s"
  by (induction us arbitrary: s) (simp_all split: sum.split)

lemma studentUsers_frame:
  "APP (studentUsers J us s) = APP s \<and> cookies (studentUsers J us s) = cookies s \<and>
   href (studentUsers J us s) = href s \<and> val (studentUsers J us s) = val s"
  by (induction us arbitrary: s) simp_all

lemma dash_studentUsers_frame:
  "APP (dash_studentUsers J us s) = APP s \<and> cookies (dash_studentUsers J us s) = cookies s \<and>
   href (dash_studentUsers J us s) = href s \<and> val (dash_studentUsers J us s) = val s"
  by (induction us arbitrary: s) (simp_all split: sum.split)

lemma createList_loop_frame:
  "APP (createList_loop u as s) = APP s \<and> cookies (createList_loop u as s) = cookies s \<and>
   href (createList_loop u as s) = href s \<and> sent (createList_loop u as s) = sent s \<and>
   pending (createList_loop u as s) = pending s"
  by (induction as arbitrary: s) simp_all

lemma dash_createList_loop_frame:
  "APP (dash_createList_loop as s) = APP s \<and> cookies (dash_createList_loop as s) = cookies s \<and>
   href (dash_createList_loop as s) = href s \<and> sent (dash_createList_loop as s) = sent s \<and>
   pending (dash_createList_loop as s) = pending s"
  by (induction as arbitrary: s) simp_all

lemma loadUsers_success_frame:
  "APP (loadUsers_success us s) = APP s \<and> cookies (loadUsers_success us s) = cookies s \<and>
   href (loadUsers_success us s) = href s \<and> sent (loadUsers_success us s) = sent s \<and>
   pending (loadUsers_success us s) = pending s"
  by (simp add: loadUsers_success_def split: sum.split)

lemma signUp_error_frame:
  "APP (signUp_error e s) = APP s \<and> cookies (signUp_error e s) = cookies s \<and>
   href (signUp_error e s) = href s \<and> sent (signUp_error e s) = sent s \<and>
   pending (signUp_error e s) = pending s"
  by (simp add: signUp_error_def Let_def)

lemma restoreLoginToken_frame:
  "restoreLoginToken J s = Inr s' \<Longrightarrow>
     cookies s' = cookies s \<and> href s' = href s \<and> sent s' = sent s \<and> pending s' = pending s"
  by (auto simp: restoreLoginToken_def split: option.splits if_splits)

lemma ready_frame:
  "cookies (ready J s) = cookies s \<and> href (ready J s) = href s \<and> sent (ready J s) = sent s \<and>
   pending (ready J s) = pending s"
  by (auto simp: ready_def split: sum.split dest: restoreLoginToken_frame)

lemma load_frame:
  "cookies (load J s) = cookies s \<and> href (load J s) = href s \<and> sent (load J s) = sent s \<and>
   pending (load J s) = []"
  by (simp add: load_def ready_frame)

subsection \<open>The requests the loops issue\<close>

lemma successful_requests:
  "\<exists>rs. sent (successful us s) = sent s @ rs \<and>
        pending (successful us s) = pending s @ map (Pair Protected) rs \<and>
        (\<forall>r\<in>set rs. r = \<lparr>req_type = GET, url = ''/api/protected'', data = None,
             headers = [(''Authorization'',
                         ''Bearer '' @ to_string (field (JWT_TOKEN (APP s)) ''authToken''))],
             contentType = None\<rparr>)"
proof (induction us arbitrary: s)
  case Nil
  show ?case by simp
next
  case (Cons u us)
  let ?r = "\<lparr>req_type = GET, url = ''/api/protected'', data = None,
             headers = [(''Authorization'',
                         ''Bearer '' @ to_string (field (JWT_TOKEN (APP s)) ''authToken''))],
             contentType = None\<rparr>"
  consider (stop) "successful (u # us) s = throw TypeError s"
    | (skip) "successful (u # us) s = successful us s"
    | (probe) "successful (u # us) s = successful us (ajax Protected ?r s)"
    by (cases "nullish u";
        cases "strict_eq (field u ''username'') (val s ''#username'') \<and>
               strict_eq (field u ''isAdmin'') (Bool True)";
        cases "nullish (JWT_TOKEN (APP s))")
       (simp_all add: get_def)
  then show ?case
  proof cases
    case stop
    then show ?thesis by simp
  next
    case skip
    then show ?thesis using Cons.IH [of s] by simp
  next
    case probe
    from Cons.IH [of "ajax Protected ?r s"] obtain rs where
      "sent (successful us (ajax Protected ?r s)) = sent s @ ?r # rs"
      "pending (successful us (ajax Protected ?r s)) = pending s @ map (Pair Protected) (?r # rs)"
      "\<forall>r\<in>set rs. r = ?r"
      by auto
    with probe show ?thesis
      by (intro exI [of _ "?r # rs"]) simp
  qed
qed

lemma studentUsers_requests:
  "\<exists>rs. sent (studentUsers J us s) = sent s @ rs \<and>
        pending (studentUsers J us s) = pending s @ map (Pair AddItem_create) rs \<and>
        (\<forall>r\<in>set rs. req_type r = POST \<and> headers r = [] \<and> url r \<noteq> ''/api/protected'')"
proof (induction us arbitrary: s)
  case Nil
  show ?case by simp
next
  case (Cons u us)
  define r where "r = \<lparr>req_type = POST, url = ''/api/users/'' @ to_string (field u ''id''),
                 data = Some (JSON_stringify J (Obj
                   [(''id'', field u ''id''),
                    (''assignmentName'', val s ''#js-assignment-name''),
                    (''assignmentDate'', val s ''#js-assignment-date'')])),
                 headers = [], contentType = Some ''application/json''\<rparr>"
  have r: "req_type r = POST" "headers r = []" "url r \<noteq> ''/api/protected''"
    by (simp_all add: r_def)
  consider (stop) "studentUsers J (u # us) s = throw TypeError s"
    | (skip) "studentUsers J (u # us) s = studentUsers J us s"
    | (post) "studentUsers J (u # us) s = studentUsers J us (ajax AddItem_create r s)"
    by (cases "nullish u";
        cases "strict_eq (field u ''username'') (val s ''#username'') \<and>
               strict_eq (field u ''isAdmin'') (Bool False)")
       (simp_all add: r_def)
  then show ?case
  proof cases
    case stop
    then show ?thesis by simp
  next
    case skip
    then show ?thesis using Cons.IH [of s] by simp
  next
    case post
    from Cons.IH [of "ajax AddItem_create r s"] obtain rs where
      "sent (studentUsers J us (ajax AddItem_create r s)) = sent s @ r # rs"
      "pending (studentUsers J us (ajax AddItem_create r s)) =
         pending s @ map (Pair AddItem_create) (r # rs)"
      "\<forall>r\<in>set rs. req_type r = POST \<and> headers r = [] \<and> url r \<noteq> ''/api/protected''"
      by auto
    with post r show ?thesis
      by (intro exI [of _ "r # rs"]) simp
  qed
qed

lemma dash_studentUsers_requests:
  "\<exists>rs. sent (dash_studentUsers J us s) = sent s @ rs \<and>
        pending (dash_studentUsers J us s) = pending s @ map (Pair Dash_create) rs \<and>
        (\<forall>r\<in>set rs. req_type r = POST \<and> url r \<noteq> ''/api/protected'')"
proof (induction us arbitrary: s)
  case Nil
  show ?case by simp
next
  case (Cons u us)
  define r where "r = \<lparr>req_type = POST, url = ''/api/users/'' @ to_string (field u ''id''),
                 data = Some (JSON_stringify J (Obj
                   [(''id'', field u ''id''),
                    (''assignmentName'', val s ''#js-assignment-name''),
                    (''assignmentDate'', val s ''#js-assignment-date'')])),
                 headers = [(''Authorization'',
                   ''Bearer '' @ to_string (field (LOGIN_INFO (APP s)) ''authToken''))],
                 contentType = Some ''application/json''\<rparr>"
  have r: "req_type r = POST" "url r \<noteq> ''/api/protected''"
    by (simp_all add: r_def)
  consider (stop) "dash_studentUsers J (u # us) s = throw TypeError s"
    | (skip) "dash_studentUsers J (u # us) s = dash_studentUsers J us s"
    | (post) "dash_studentUsers J (u # us) s = dash_studentUsers J us (ajax Dash_create r s)"
    by (cases "nullish u";
        cases "strict_eq (field u ''username'') (val s ''#username'') \<and>
               strict_eq (field u ''isAdmin'') (Bool False)";
        cases "nullish (LOGIN_INFO (APP s))")
       (simp_all add: r_def get_def)
  then show ?case
  proof cases
    case stop
    then show ?thesis by simp
  next
    case skip
    then show ?thesis using Cons.IH [of s] by simp
  next
    case post
    from Cons.IH [of "ajax Dash_create r s"] obtain rs where
      "sent (dash_studentUsers J us (ajax Dash_create r s)) = sent s @ r # rs"
      "pending (dash_studentUsers J us (ajax Dash_create r s)) =
         pending s @ map (Pair Dash_create) (r # rs)"
      "\<forall>r\<in>set rs. req_type r = POST \<and> url r \<noteq> ''/api/protected''"
      by auto
    with post r show ?thesis
      by (intro exI [of _ "r # rs"]) simp
  qed
qed

lemma successful_probes:
  "\<exists>rs. sent (successful us s) = sent s @ rs \<and>
        pending (successful us s) = pending s @ map (Pair Protected) rs \<and>
        (\<forall>r\<in>set rs. is_probe r)"
proof -
  let ?R = "\<lparr>req_type = GET, url = ''/api/protected'', data = None,
             headers = [(''Authorization'',
                         ''Bearer '' @ to_string (field (JWT_TOKEN (APP s)) ''authToken''))],
             contentType = None\<rparr>"
  from successful_requests [of us s] obtain rs where
    a: "sent (successful us s) = sent s @ rs"
       "pending (successful us s) = pending s @ map (Pair Protected) rs"
    and b: "\<forall>r\<in>set rs. r = ?R"
    by blast
  have "is_probe ?R"
    by (simp add: is_probe_def)
  with b have "\<forall>r\<in>set rs. is_probe r"
    by metis
  with a show ?thesis
    by blast
qed

lemma is_probe_url: "is_probe r \<Longrightarrow> url r = ''/api/protected''"
  by (simp add: is_probe_def)

lemma on_error_frame:
  "APP (on_error cb st e s) = APP s \<and> cookies (on_error cb st e s) = cookies s \<and>
   href (on_error cb st e s) = href s \<and> sent (on_error cb st e s) = sent s \<and>
   pending (on_error cb st e s) = pending s"
  by (cases cb) (simp_all add: signUp_error_frame unauthorized_def)

lemma on_success_cookies:
  assumes "on_success J cb v s = Some s'" and "cookies s k \<noteq> None"
  shows "cookies s' k \<noteq> None"
  using assms
  by (cases cb)
     (auto simp: signUp_success_def login_success_def saveLoginToken_def loadAuthorized_def
        createList_def dash_createList_def successful_frame studentUsers_frame
        dash_studentUsers_frame createList_loop_frame dash_createList_loop_frame
        loadUsers_success_frame)


lemma probes_ok_append:
  "probes_ok (ps @ qs) = (probes_ok ps \<and> probes_ok qs)"
  by (auto simp: probes_ok_def)

lemma probes_ok_map:
  "probes_ok (map (Pair cb) rs) = (cb = Protected \<longrightarrow> (\<forall>r\<in>set rs. is_probe r))"
  by (auto simp: probes_ok_def)

lemma probes_ok_single:
  "probes_ok [(cb, r)] = (cb = Protected \<longrightarrow> is_probe r)"
  by (simp add: probes_ok_def)

lemma on_success_probes:
  assumes "on_success J cb v s = Some s'" and "probes_ok (pending s)"
  shows "probes_ok (pending s')"
proof (cases cb)
  case Login_users
  with assms obtain us where "s' = successful us s"
    by auto
  with successful_probes [of us s] assms(2) show ?thesis
    by (auto simp: probes_ok_append probes_ok_map)
next
  case AddItem_users
  with assms obtain us where "s' = studentUsers J us s"
    by auto
  with studentUsers_requests [of J us s] assms(2) show ?thesis
    by (auto simp: probes_ok_append probes_ok_map)
next
  case Dash_users
  with assms obtain us where "s' = dash_studentUsers J us s"
    by auto
  with dash_studentUsers_requests [of J us s] assms(2) show ?thesis
    by (auto simp: probes_ok_append probes_ok_map)
qed (use assms in \<open>auto simp: signUp_success_def login_success_def saveLoginToken_def
        loadAuthorized_def createList_def dash_createList_def createList_loop_frame
        dash_createList_loop_frame loadUsers_success_frame probes_ok_append probes_ok_single\<close>)

lemma set_remove_nth: "set (remove_nth i xs) \<subseteq> set xs"
  by (auto simp: remove_nth_def dest: in_set_takeD in_set_dropD)

lemma probes_ok_remove_nth: "probes_ok ps \<Longrightarrow> probes_ok (remove_nth i ps)"
  using set_remove_nth [of i ps] by (auto simp: probes_ok_def)

subsection \<open>Steps and runs\<close>

lemma submit_frame:
  "APP (submit J name s) = APP s \<and> cookies (submit J name s) = cookies s \<and>
   href (submit J name s) = href s"
  by (simp add: submit_def signUpForm_def loginForm_def handleAddItem_def Let_def)

lemma submit_requests:
  "\<exists>rs. sent (submit J name s) = sent s @ rs \<and>
        pending (submit J name s) = pending s @ map (Pair (if name = ''signup'' then SignUp
             else if name = ''login'' then Login else AddItem_users)) rs \<and>
        (\<forall>r\<in>set rs. headers r = [] \<and> url r \<noteq> ''/api/protected'')"
  by (simp add: submit_def signUpForm_def loginForm_def handleAddItem_def Let_def)

lemma dash_frame:
  "APP (dash_ready s) = APP s \<and> cookies (dash_ready s) = cookies s \<and>
   href (dash_ready s) = href s \<and>
   APP (dash_submit name s) = APP s \<and> cookies (dash_submit name s) = cookies s \<and>
   href (dash_submit name s) = href s"
  by (simp add: dash_ready_def dash_submit_def loadUsers_def dash_handleAddItem_def)

lemma dash_ready_requests:
  "\<exists>rs. sent (dash_ready s) = sent s @ rs \<and>
        pending (dash_ready s) = pending s @ map (Pair LoadUsers) rs \<and>
        (\<forall>r\<in>set rs. headers r = [] \<and> url r \<noteq> ''/api/protected'')"
  by (simp add: dash_ready_def loadUsers_def)

lemma dash_submit_requests:
  "\<exists>rs. sent (dash_submit name s) = sent s @ rs \<and>
        pending (dash_submit name s) = pending s @ map (Pair Dash_users) rs \<and>
        (\<forall>r\<in>set rs. headers r = [] \<and> url r \<noteq> ''/api/protected'')"
  by (simp add: dash_submit_def dash_handleAddItem_def)

lemma deliver_failure:
  "i < length (pending s) \<Longrightarrow>
     deliver J i (Failure st e) s =
       on_error (fst (pending s ! i)) st e (s\<lparr>pending := remove_nth i (pending s)\<rparr>)"
  by (simp add: deliver_def Let_def)

lemma deliver_failure_frame:
  "APP (deliver J i (Failure st e) s) = APP s \<and>
   cookies (deliver J i (Failure st e) s) = cookies s \<and>
   href (deliver J i (Failure st e) s) = href s \<and>
   sent (deliver J i (Failure st e) s) = sent s"
  by (simp add: deliver_def Let_def on_error_frame)

lemma deliver_cookies:
  assumes "cookies s k \<noteq> None"
  shows "cookies (deliver J i rep s) k \<noteq> None"
proof (cases rep)
  case (Success v)
  show ?thesis
  proof (cases "i < length (pending s)")
    case True
    let ?s = "s\<lparr>pending := remove_nth i (pending s)\<rparr>"
    show ?thesis
    proof (cases "on_success J (fst (pending s ! i)) v ?s")
      case None
      with True Success assms show ?thesis
        by (simp add: deliver_def Let_def)
    next
      case (Some s'')
      with on_success_cookies [OF Some, of k] assms have "cookies s'' k \<noteq> None"
        by simp
      with True Success Some show ?thesis
        by (simp add: deliver_def Let_def)
    qed
  next
    case False
    with assms show ?thesis
      by (simp add: deliver_def)
  qed
next
  case (Failure st e)
  with assms show ?thesis
    by (simp add: deliver_failure_frame)
qed


lemma deliver_probes:
  assumes "probes_ok (pending s)"
  shows "probes_ok (pending (deliver J i rep s))"
proof (cases "i < length (pending s)")
  case True
  let ?s = "s\<lparr>pending := remove_nth i (pending s)\<rparr>"
  have ok: "probes_ok (pending ?s)"
    using assms by (simp add: probes_ok_remove_nth)
  show ?thesis
  proof (cases rep)
    case (Success v)
    show ?thesis
    proof (cases "on_success J (fst (pending s ! i)) v ?s")
      case None
      with True Success assms show ?thesis
        by (simp add: deliver_def Let_def)
    next
      case (Some s'')
      from on_success_probes [OF Some ok] True Success Some show ?thesis
        by (simp add: deliver_def Let_def)
    qed
  next
    case (Failure st e)
    with True ok show ?thesis
      by (simp add: deliver_failure on_error_frame)
  qed
next
  case False
  with assms show ?thesis
    by (simp add: deliver_def)
qed

lemma step_cookies:
  "cookies s k \<noteq> None \<Longrightarrow> cookies (step J ev s) k \<noteq> None"
  by (cases ev)
     (simp_all add: load_frame sendSignUp_def sendLogin_def submit_frame dash_frame
        deliver_cookies)

lemma run_cookies:
  "cookies s k \<noteq> None \<Longrightarrow> cookies (run J evs s) k \<noteq> None"
proof (induction evs arbitrary: s)
  case Nil
  then show ?case by simp
next
  case (Cons ev evs)
  from Cons.IH [OF step_cookies [OF Cons.prems]] show ?case
    by simp
qed


lemma step_probes:
  assumes "probes_ok (pending s)"
  shows "probes_ok (pending (step J ev s))"
proof (cases ev)
  case (Submit name)
  with submit_requests [of J name s] assms show ?thesis
    by (auto simp: probes_ok_append probes_ok_map)
next
  case (Reply i rep)
  with deliver_probes [OF assms] show ?thesis
    by simp
next
  case Dash_Load
  with dash_ready_requests [of s] assms show ?thesis
    by (auto simp: probes_ok_append probes_ok_map)
next
  case (Dash_Submit name)
  with dash_submit_requests [of name s] assms show ?thesis
    by (auto simp: probes_ok_append probes_ok_map)
qed (use assms in \<open>simp_all add: load_frame sendSignUp_def sendLogin_def probes_ok_def\<close>)

lemma run_probes:
  "probes_ok (pending s) \<Longrightarrow> probes_ok (pending (run J evs s))"
  by (induction evs arbitrary: s) (simp_all add: step_probes)


subsection \<open>The token on the requests of a run\<close>

lemma sent_rule_plain: "headers r = [] \<Longrightarrow> url r \<noteq> ''/api/protected'' \<Longrightarrow> sent_rule tok r"
  by (simp add: sent_rule_def)

lemma sent_rule_post: "req_type r = POST \<Longrightarrow> url r \<noteq> ''/api/protected'' \<Longrightarrow> sent_rule tok r"
  by (simp add: sent_rule_def)

lemma on_success_rule:
  assumes "on_success J cb v s = Some s'"
  shows "\<exists>rs. sent s' = sent s @ rs \<and> (\<forall>r\<in>set rs. sent_rule (JWT_TOKEN (APP s)) r)"
proof (cases cb)
  case Login
  with assms have "sent s' = sent s @ [\<lparr>req_type = GET, url = ''/api/users/'', data = None,
      headers = [], contentType = Some ''application/json''\<rparr>]"
    by (auto simp: login_success_def saveLoginToken_def)
  then show ?thesis
    by (simp add: sent_rule_def)
next
  case Login_users
  with assms obtain us where "s' = successful us s"
    by auto
  let ?R = "\<lparr>req_type = GET, url = ''/api/protected'', data = None,
             headers = [(''Authorization'',
                         ''Bearer '' @ to_string (field (JWT_TOKEN (APP s)) ''authToken''))],
             contentType = None\<rparr>"
  from successful_requests [of us s] obtain rs where
    a: "sent (successful us s) = sent s @ rs" and b: "\<forall>r\<in>set rs. r = ?R"
    by blast
  have "sent_rule (JWT_TOKEN (APP s)) ?R"
    by (simp add: sent_rule_def)
  with b have "\<forall>r\<in>set rs. sent_rule (JWT_TOKEN (APP s)) r"
    by metis
  with a \<open>s' = successful us s\<close> show ?thesis
    by blast
next
  case AddItem_users
  with assms obtain us where "s' = studentUsers J us s"
    by auto
  with studentUsers_requests [of J us s] show ?thesis
    by (auto intro: sent_rule_post)
next
  case Dash_users
  with assms obtain us where "s' = dash_studentUsers J us s"
    by auto
  with dash_studentUsers_requests [of J us s] show ?thesis
    by (auto intro: sent_rule_post)
qed (use assms in \<open>auto simp: signUp_success_def
        loadAuthorized_def createList_def dash_createList_def createList_loop_frame
        dash_createList_loop_frame loadUsers_success_frame\<close>)

lemma deliver_rule:
  "\<exists>rs. sent (deliver J i rep s) = sent s @ rs \<and>
        (\<forall>r\<in>set rs. sent_rule (JWT_TOKEN (APP s)) r)"
proof (cases rep)
  case (Success v)
  show ?thesis
  proof (cases "i < length (pending s)")
    case True
    let ?s = "s\<lparr>pending := remove_nth i (pending s)\<rparr>"
    show ?thesis
    proof (cases "on_success J (fst (pending s ! i)) v ?s")
      case None
      with True Success show ?thesis
        by (simp add: deliver_def Let_def)
    next
      case (Some s'')
      from on_success_rule [OF Some] True Success Some show ?thesis
        by (simp add: deliver_def Let_def)
    qed
  next
    case False
    then show ?thesis
      by (simp add: deliver_def)
  qed
next
  case (Failure st e)
  then show ?thesis
    by (simp add: deliver_failure_frame)
qed

lemma step_rule:
  "\<exists>rs. sent (step J ev s) = sent s @ rs \<and>
        (\<forall>r\<in>set rs. sent_rule (JWT_TOKEN (APP s)) r)"
proof (cases ev)
  case (Submit name)
  with submit_requests [of J name s] show ?thesis
    by (auto intro: sent_rule_plain)
next
  case (Reply i rep)
  with deliver_rule [of J i rep s] show ?thesis
    by simp
next
  case Dash_Load
  with dash_ready_requests [of s] show ?thesis
    by (auto intro: sent_rule_plain)
next
  case (Dash_Submit name)
  with dash_submit_requests [of name s] show ?thesis
    by (auto intro: sent_rule_plain)
qed (simp_all add: load_frame sendSignUp_def sendLogin_def)

lemma run_rule:
  "\<exists>rs. sent (run J evs s) = sent s @ rs \<and>
        (\<forall>r\<in>set rs. \<exists>pre post. evs = pre @ post \<and>
           sent_rule (JWT_TOKEN (APP (run J pre s))) r)"
proof (induction evs arbitrary: s)
  case Nil
  show ?case by simp
next
  case (Cons ev evs)
  from step_rule [of J ev s] obtain rs where
    rs: "sent (step J ev s) = sent s @ rs" "\<forall>r\<in>set rs. sent_rule (JWT_TOKEN (APP s)) r"
    by blast
  from Cons.IH [of "step J ev s"] obtain rs' where
    rs': "sent (run J evs (step J ev s)) = sent (step J ev s) @ rs'"
      "\<forall>r\<in>set rs'. \<exists>pre post. evs = pre @ post \<and>
           sent_rule (JWT_TOKEN (APP (run J pre (step J ev s)))) r"
    by blast
  have "\<exists>pre post. ev # evs = pre @ post \<and> sent_rule (JWT_TOKEN (APP (run J pre s))) r"
    if "r \<in> set (rs @ rs')" for r
  proof (cases "r \<in> set rs")
    case True
    with rs(2) have "ev # evs = [] @ (ev # evs) \<and> sent_rule (JWT_TOKEN (APP (run J [] s))) r"
      by simp
    then show ?thesis
      by blast
  next
    case False
    with that rs'(2) obtain pre post where
      "evs = pre @ post" "sent_rule (JWT_TOKEN (APP (run J pre (step J ev s)))) r"
      by auto
    then have "ev # evs = (ev # pre) @ post \<and>
               sent_rule (JWT_TOKEN (APP (run J (ev # pre) s))) r"
      by simp
    then show ?thesis
      by blast
  qed
  with rs(1) rs'(1) show ?case
    by (intro exI [of _ "rs @ rs'"]) simp
qed

subsection \<open>What the callbacks render\<close>

lemma strict_eq_Bool: "strict_eq x (Bool b) = (x = Bool b)"
  by (cases x) auto

lemma strict_eq_Str: "strict_eq x (Str t) = (x = Str t)"
  by (cases x) auto

lemma createList_loop_items:
  "\<forall>a\<in>set as. \<not> nullish a \<Longrightarrow>
     showAssignment (createList_loop userObj as s) = showAssignment s @ map (item_html userObj) as"
  by (induction as arbitrary: s) simp_all

lemma dash_createList_loop_items:
  "\<forall>a\<in>set as. \<not> nullish a \<Longrightarrow>
     showAssignment (dash_createList_loop as s) = showAssignment s @ map dash_item_html as"
  by (induction as arbitrary: s) simp_all

lemma loadUsers_loop_students:
  "\<forall>u\<in>set users. \<not> nullish u \<Longrightarrow>
     loadUsers_loop users list =
       Inr (list @ map option_html (filter (\<lambda>u. field u ''isAdmin'' = Bool False) users))"
  by (induction users arbitrary: list) (simp_all add: strict_eq_Bool)

lemma item_html_shape:
  "\<exists>pre post. \<forall>a. item_html userObj a =
      pre @ to_string (field a ''assignmentName'') @ '' Date: '' @
      to_string (field a ''assignmentDate'') @ post"
  by (rule exI [of _ "nl @ pad @ ''<li>'' @ nl @ pad @ ''<span>Username: '' @
         to_string (field userObj ''username'') @ '' Assignment: ''"], rule exI)
     (simp add: item_html_def)

lemma dash_item_html_shape:
  \<open>\<exists>pre post. \<forall>a. dash_item_html a =
      pre @ to_string (field a ''assignmentName'') @
      ''</b> Due Date: <b class="assignmentColor">'' @
      to_string (field a ''assignmentDate'') @ post\<close>
  by (rule exI [of _ \<open>nl @ pad @ ''<li>'' @ nl @ pad @
         ''<span>Assignment: <b class="assignmentColor">''\<close>], rule exI)
     (simp add: dash_item_html_def)

lemma pending_after_login:
  "pending after_login =
     [(Login_users, \<lparr>req_type = GET, url = ''/api/users/'', data = None, headers = [],
        contentType = Some ''application/json''\<rparr>)]"
  by code_simp

lemma pending_after_users:
  "pending after_users =
     [(Protected, \<lparr>req_type = GET, url = ''/api/protected'', data = None,
        headers = [(''Authorization'', ''Bearer abc'')], contentType = None\<rparr>)]"
  by code_simp

section \<open>The claims\<close>

text \<open>
  C1, as stated, fails: after a successful login (the token is in the cookie and in the
  session) the next request of the client, \<^verbatim>\<open>GET /api/users/\<close>, has no header at all.
\<close>

theorem users_request_without_token_counterexample:
  "cookies after_login ''APP_TOKEN'' = Some (JSON_stringify compact_json token_abc) \<and>
   JWT_TOKEN (APP after_login) = token_abc \<and>
   map req_type (sent after_login) = [POST, GET] \<and>
   map url (sent after_login) = [''/api/auth/login'', ''/api/users/''] \<and>
   map headers (sent after_login) = [[], []]"
  by code_simp

text \<open>
  C1, amended. A successful login stores the token in the \<^verbatim>\<open>APP_TOKEN\<close> cookie and in
  the session. Of the \<^verbatim>\<open>GET\<close> requests that the client issues afterwards, in any run, only
  the probe \<^verbatim>\<open>GET /api/protected\<close> carries it: its one header is \<^verbatim>\<open>Authorization\<close> with
  \<^verbatim>\<open>Bearer\<close> and the \<^verbatim>\<open>authToken\<close> of the session token at the moment it is sent, which
  for the probes sent right after a login is the \<^verbatim>\<open>authToken\<close> of the login's response.
  Every other \<^verbatim>\<open>GET\<close>, each \<^verbatim>\<open>GET /api/users\<close> among them, is sent without any header.
\<close>

theorem token_only_on_probe:
  "cookies (login_success J response s) ''APP_TOKEN'' = Some (JSON_stringify J response) \<and>
   JWT_TOKEN (APP (login_success J response s)) = response \<and>
   (\<exists>rs. sent (successful jsonRes (login_success J response s)) =
           sent s @ \<lparr>req_type = GET, url = ''/api/users/'', data = None, headers = [],
                      contentType = Some ''application/json''\<rparr> # rs \<and>
         (\<forall>r\<in>set rs. r = \<lparr>req_type = GET, url = ''/api/protected'', data = None,
              headers = [(''Authorization'',
                          ''Bearer '' @ to_string (field response ''authToken''))],
              contentType = None\<rparr>)) \<and>
   (\<forall>r\<in>set (drop (length (sent s)) (sent (run J evs s))).
      (req_type r = GET \<and> url r \<noteq> ''/api/protected'' \<longrightarrow> headers r = []) \<and>
      (url r = ''/api/protected'' \<longrightarrow>
         (\<exists>pre post. evs = pre @ post \<and>
            r = \<lparr>req_type = GET, url = ''/api/protected'', data = None,
                  headers = [(''Authorization'', ''Bearer '' @
                     to_string (field (JWT_TOKEN (APP (run J pre s))) ''authToken''))],
                  contentType = None\<rparr>))) \<and>
   (probes_ok (pending s) \<longrightarrow> probes_ok (pending (run J evs s)))"
proof (intro conjI)
  show "cookies (login_success J response s) ''APP_TOKEN'' = Some (JSON_stringify J response)"
    by (simp add: login_success_def saveLoginToken_def)
  show t: "JWT_TOKEN (APP (login_success J response s)) = response"
    by (simp add: login_success_def saveLoginToken_def)
  have "sent (login_success J response s) =
          sent s @ [\<lparr>req_type = GET, url = ''/api/users/'', data = None, headers = [],
                      contentType = Some ''application/json''\<rparr>]"
    by (simp add: login_success_def saveLoginToken_def)
  with successful_requests [of jsonRes "login_success J response s"] t
  show "\<exists>rs. sent (successful jsonRes (login_success J response s)) =
           sent s @ \<lparr>req_type = GET, url = ''/api/users/'', data = None, headers = [],
                      contentType = Some ''application/json''\<rparr> # rs \<and>
         (\<forall>r\<in>set rs. r = \<lparr>req_type = GET, url = ''/api/protected'', data = None,
              headers = [(''Authorization'',
                          ''Bearer '' @ to_string (field response ''authToken''))],
              contentType = None\<rparr>)"
    by auto
  from run_rule [of J evs s] obtain rs where
    rs: "sent (run J evs s) = sent s @ rs"
      "\<forall>r\<in>set rs. \<exists>pre post. evs = pre @ post \<and>
           sent_rule (JWT_TOKEN (APP (run J pre s))) r"
    by blast
  have "(req_type r = GET \<and> url r \<noteq> ''/api/protected'' \<longrightarrow> headers r = []) \<and>
      (url r = ''/api/protected'' \<longrightarrow>
         (\<exists>pre post. evs = pre @ post \<and>
            r = \<lparr>req_type = GET, url = ''/api/protected'', data = None,
                  headers = [(''Authorization'', ''Bearer '' @
                     to_string (field (JWT_TOKEN (APP (run J pre s))) ''authToken''))],
                  contentType = None\<rparr>))" if "r \<in> set rs" for r
  proof -
    from that rs(2) obtain pre post where
      p: "evs = pre @ post" "sent_rule (JWT_TOKEN (APP (run J pre s))) r"
      by blast
    show ?thesis
    proof (cases "url r = ''/api/protected''")
      case True
      with p show ?thesis
        unfolding sent_rule_def by (intro conjI impI exI [of _ pre] exI [of _ post]) simp_all
    next
      case False
      with p(2) show ?thesis
        by (simp add: sent_rule_def)
    qed
  qed
  with rs(1) show "\<forall>r\<in>set (drop (length (sent s)) (sent (run J evs s))).
      (req_type r = GET \<and> url r \<noteq> ''/api/protected'' \<longrightarrow> headers r = []) \<and>
      (url r = ''/api/protected'' \<longrightarrow>
         (\<exists>pre post. evs = pre @ post \<and>
            r = \<lparr>req_type = GET, url = ''/api/protected'', data = None,
                  headers = [(''Authorization'', ''Bearer '' @
                     to_string (field (JWT_TOKEN (APP (run J pre s))) ''authToken''))],
                  contentType = None\<rparr>))"
    by simp
  show "probes_ok (pending s) \<longrightarrow> probes_ok (pending (run J evs s))"
    by (simp add: run_probes)
qed

theorem token_only_on_probe_witness:
  "sent after_users ! 1 \<in> set (drop (length (sent blank)) (sent after_users)) \<and>
   req_type (sent after_users ! 1) = GET \<and> url (sent after_users ! 1) = ''/api/users/'' \<and>
   headers (sent after_users ! 1) = [] \<and>
   sent after_users ! 2 \<in> set (drop (length (sent blank)) (sent after_users)) \<and>
   url (sent after_users ! 2) = ''/api/protected'' \<and>
   (\<exists>pre post.
      [Load, Input ''#username'' (Str ''ann''), Submit ''login'',
       Reply 0 (Success token_abc), Reply 0 (Success (Arr [user_bob, user_ann]))] = pre @ post \<and>
      sent after_users ! 2 =
        \<lparr>req_type = GET, url = ''/api/protected'', data = None,
         headers = [(''Authorization'', ''Bearer '' @
            to_string (field (JWT_TOKEN (APP (run compact_json pre blank))) ''authToken''))],
         contentType = None\<rparr>) \<and>
   headers (sent after_users ! 2) = [(''Authorization'', ''Bearer abc'')] \<and>
   (\<exists>rs. sent (successful [user_bob, user_ann] (login_success compact_json token_abc ann_typed)) =
      sent ann_typed @ \<lparr>req_type = GET, url = ''/api/users/'', data = None, headers = [],
                      contentType = Some ''application/json''\<rparr> # rs \<and>
      rs \<noteq> [] \<and>
      list_all (\<lambda>r. headers r = [(''Authorization'', ''Bearer abc'')]) rs) \<and>
   probes_ok (pending blank) \<and> probes_ok (pending after_users)"
proof -
  let ?evs = "[Load, Input ''#username'' (Str ''ann''), Submit ''login'',
               Reply 0 (Success token_abc), Reply 0 (Success (Arr [user_bob, user_ann]))]"
  have run: "after_users = run compact_json ?evs blank"
    by (simp add: after_users_def after_login_def)
  have a: "sent after_users ! 1 \<in> set (drop (length (sent blank)) (sent after_users))"
    "sent after_users ! 2 \<in> set (drop (length (sent blank)) (sent after_users))"
    by code_simp+
  have b: "req_type (sent after_users ! 1) = GET \<and> url (sent after_users ! 1) = ''/api/users/''"
    "url (sent after_users ! 2) = ''/api/protected''"
    "headers (sent after_users ! 2) = [(''Authorization'', ''Bearer abc'')]"
    by code_simp+
  then have b': "url (sent after_users ! 1) \<noteq> ''/api/protected''"
    by simp
  have c: "probes_ok (pending blank)"
    by code_simp
  have d: "length (sent (successful [user_bob, user_ann]
             (login_success compact_json token_abc ann_typed))) = 2"
    "sent ann_typed = []"
    by code_simp+
  have e: "to_string (field token_abc ''authToken'') = ''abc''"
    by (simp add: token_abc_def)
  note inst = token_only_on_probe [of compact_json token_abc _ "[user_bob, user_ann]" ?evs]
  from inst [of ann_typed] obtain rs where
    rs: "sent (successful [user_bob, user_ann] (login_success compact_json token_abc ann_typed)) =
      sent ann_typed @ \<lparr>req_type = GET, url = ''/api/users/'', data = None, headers = [],
                      contentType = Some ''application/json''\<rparr> # rs"
      "\<forall>r\<in>set rs. r = \<lparr>req_type = GET, url = ''/api/protected'', data = None,
              headers = [(''Authorization'',
                          ''Bearer '' @ to_string (field token_abc ''authToken''))],
              contentType = None\<rparr>"
    by blast
  from rs(1) d have ne: "rs \<noteq> []"
    by auto
  from rs(2) have "list_all (\<lambda>r. headers r = [(''Authorization'', ''Bearer abc'')]) rs"
    unfolding e by (auto simp: list_all_iff)
  with rs(1) ne have f: "\<exists>rs. sent (successful [user_bob, user_ann]
        (login_success compact_json token_abc ann_typed)) =
      sent ann_typed @ \<lparr>req_type = GET, url = ''/api/users/'', data = None, headers = [],
                      contentType = Some ''application/json''\<rparr> # rs \<and>
      rs \<noteq> [] \<and>
      list_all (\<lambda>r. headers r = [(''Authorization'', ''Bearer abc'')]) rs"
    by blast
  from inst [of blank] a b b' c f show ?thesis
    unfolding run [symmetric] by blast
qed

text \<open>
  C2, as stated, fails: loading a page of index.js whose cookie holds a token restores the
  token and issues no request; and when the page also runs dash-teacher.js, the one request
  of the load is a \<^verbatim>\<open>GET /api/users\<close> without any header, whose reply only fills the list
  of students.
\<close>

theorem page_load_no_request_counterexample:
  "cookies token_page ''APP_TOKEN'' = Some (compact_stringify token_abc) \<and>
   JWT_TOKEN (APP (load compact_json token_page)) = token_abc \<and>
   sent (load compact_json token_page) = [] \<and>
   pending (load compact_json token_page) = [] \<and>
   sent (run compact_json [Load, Dash_Load] token_page) =
     [\<lparr>req_type = GET, url = ''/api/users'', data = None, headers = [], contentType = None\<rparr>] \<and>
   map fst (pending (run compact_json [Load, Dash_Load] token_page)) = [LoadUsers] \<and>
   href (run compact_json [Load, Dash_Load] token_page) = href token_page"
  by code_simp

text \<open>
  C2, amended. On a page load where the \<^verbatim>\<open>APP_TOKEN\<close> cookie holds a JSON text, the ready
  function of index.js restores the token into the session and binds the submit handler; it
  issues no request. The ready function of dash-teacher.js, on the teacher dashboard, sends
  one \<^verbatim>\<open>GET /api/users\<close> without any header and binds its submit handler; it restores no
  token, and the reply to its request only fills the list of students. Neither of them, nor
  the two one after the other, changes the address or the cookies: no page load revalidates
  the role of the token, and none selects a view, from the role that the token claims or
  otherwise.
\<close>

theorem page_load_restores_only:
  assumes "cookies s ''APP_TOKEN'' = Some text" and "text \<noteq> []" and "JSON_parse J text = Some t"
  shows "JWT_TOKEN (APP (load J s)) = t \<and> submit_bound (load J s) \<and>
         sent (load J s) = sent s \<and> pending (load J s) = [] \<and>
         href (load J s) = href s \<and> cookies (load J s) = cookies s \<and>
         step J Load s = load J s \<and>
         step J Dash_Load s' = dash_ready s' \<and>
         sent (dash_ready s') =
           sent s' @ [\<lparr>req_type = GET, url = ''/api/users'', data = None, headers = [],
                        contentType = None\<rparr>] \<and>
         pending (dash_ready s') =
           pending s' @ [(LoadUsers, \<lparr>req_type = GET, url = ''/api/users'', data = None,
                                      headers = [], contentType = None\<rparr>)] \<and>
         APP (dash_ready s') = APP s' \<and> cookies (dash_ready s') = cookies s' \<and>
         href (dash_ready s') = href s' \<and> dash_bound (dash_ready s') \<and>
         APP (loadUsers_success users s') = APP s' \<and>
         href (loadUsers_success users s') = href s' \<and>
         sent (loadUsers_success users s') = sent s' \<and>
         JWT_TOKEN (APP (run J [Load, Dash_Load] s)) = t \<and>
         sent (run J [Load, Dash_Load] s) =
           sent s @ [\<lparr>req_type = GET, url = ''/api/users'', data = None, headers = [],
                       contentType = None\<rparr>] \<and>
         href (run J [Load, Dash_Load] s) = href s"
  using assms
  by (simp add: load_def ready_def restoreLoginToken_def dash_ready_def loadUsers_def
        loadUsers_success_frame)

theorem page_load_restores_only_witness:
  "cookies token_page ''APP_TOKEN'' = Some (compact_stringify token_abc) \<and>
   compact_stringify token_abc \<noteq> [] \<and>
   JSON_parse compact_json (compact_stringify token_abc) = Some token_abc \<and>
   JWT_TOKEN (APP (load compact_json token_page)) = token_abc \<and>
   sent (load compact_json token_page) = sent token_page \<and>
   sent (dash_ready token_page) =
     sent token_page @ [\<lparr>req_type = GET, url = ''/api/users'', data = None, headers = [],
                          contentType = None\<rparr>] \<and>
   JWT_TOKEN (APP (dash_ready token_page)) = JWT_TOKEN (APP token_page) \<and>
   JWT_TOKEN (APP (run compact_json [Load, Dash_Load] token_page)) = token_abc \<and>
   href (run compact_json [Load, Dash_Load] token_page) = href token_page"
proof -
  have a: "cookies token_page ''APP_TOKEN'' = Some (compact_stringify token_abc)"
    by (simp add: token_page_def)
  have b: "compact_stringify token_abc \<noteq> []"
    by code_simp
  have c: "JSON_parse compact_json (compact_stringify token_abc) = Some token_abc"
    by code_simp
  from page_load_restores_only [OF a b c, of token_page] a b c show ?thesis
    by simp
qed



text \<open>
  C4, as stated, fails: after the probe of a login was answered with 401, the cookie and
  the session still hold the token.
\<close>

theorem failed_probe_keeps_token_counterexample:
  "map fst (pending after_users) = [Protected] \<and>
   cookies (step compact_json (Reply 0 (Failure 401 Undefined)) after_users) ''APP_TOKEN'' =
     Some (compact_stringify token_abc) \<and>
   JWT_TOKEN (APP (step compact_json (Reply 0 (Failure 401 Undefined)) after_users)) = token_abc"
  by code_simp

text \<open>
  C4, amended. The client never discards the token: once the \<^verbatim>\<open>APP_TOKEN\<close> cookie is
  set, no event removes it (no function logs out or calls \<^verbatim>\<open>Cookies.remove\<close>), and a failed
  reply of any request, the probe included, leaves the cookies and the session token as
  they are.
\<close>

theorem token_never_discarded:
  "(cookies s ''APP_TOKEN'' \<noteq> None \<longrightarrow> cookies (run J evs s) ''APP_TOKEN'' \<noteq> None) \<and>
   cookies (step J (Reply i (Failure status e)) s) = cookies s \<and>
   APP (step J (Reply i (Failure status e)) s) = APP s"
  by (simp add: run_cookies deliver_failure_frame)

theorem token_never_discarded_witness:
  "cookies after_users ''APP_TOKEN'' \<noteq> None \<and>
   cookies (run compact_json [Reply 0 (Failure 401 Undefined), Call_sendLogin, Load] after_users)
     ''APP_TOKEN'' \<noteq> None"
proof -
  have a: "cookies after_users ''APP_TOKEN'' \<noteq> None"
    by code_simp
  from token_never_discarded
         [of after_users compact_json "[Reply 0 (Failure 401 Undefined), Call_sendLogin, Load]"]
       a show ?thesis
    by blast
qed

text \<open>
  C5. Round trip of the token through the cookie. For every token \<open>t\<close> that the JSON built-in
  represents (parsing its text gives \<open>t\<close> back; the empty text is not JSON), setting \<open>t\<close> as
  the session token and calling \<open>saveLoginToken\<close> stores its text under the one name
  \<^verbatim>\<open>APP_TOKEN\<close>, and \<open>restoreLoginToken\<close> on any page that has these cookies, a reloaded
  one included, returns normally with the session token equal to \<open>t\<close>.
\<close>

theorem token_round_trip:
  assumes "JSON_parse J (JSON_stringify J t) = Some t" and "JSON_parse J [] = None"
    and "cookies s' = cookies (saveLoginToken J (s\<lparr>APP := (APP s)\<lparr>JWT_TOKEN := t\<rparr>\<rparr>))"
  shows "cookies s' ''APP_TOKEN'' = Some (JSON_stringify J t) \<and>
         restoreLoginToken J s' = Inr (s'\<lparr>APP := (APP s')\<lparr>JWT_TOKEN := t\<rparr>\<rparr>)"
proof -
  from assms(1,2) have ne: "JSON_stringify J t \<noteq> []"
    by auto
  have c: "cookies s' ''APP_TOKEN'' = Some (JSON_stringify J t)"
    using assms(3) by (simp add: saveLoginToken_def)
  show ?thesis
    using assms(1) ne c by (simp add: restoreLoginToken_def)
qed

theorem token_round_trip_witness:
  "JSON_parse compact_json (JSON_stringify compact_json token_abc) = Some token_abc \<and>
   JSON_parse compact_json [] = None \<and>
   restoreLoginToken compact_json
     ((saveLoginToken compact_json (blank\<lparr>APP := (APP blank)\<lparr>JWT_TOKEN := token_abc\<rparr>\<rparr>))
        \<lparr>APP := APP_init\<rparr>) =
   Inr ((saveLoginToken compact_json (blank\<lparr>APP := (APP blank)\<lparr>JWT_TOKEN := token_abc\<rparr>\<rparr>))
        \<lparr>APP := APP_init\<lparr>JWT_TOKEN := token_abc\<rparr>\<rparr>)"
proof -
  let ?s = "saveLoginToken compact_json (blank\<lparr>APP := (APP blank)\<lparr>JWT_TOKEN := token_abc\<rparr>\<rparr>)"
  have a: "JSON_parse compact_json (JSON_stringify compact_json token_abc) = Some token_abc"
    by code_simp
  have b: "JSON_parse compact_json [] = None"
    by code_simp
  have c: "cookies (?s\<lparr>APP := APP_init\<rparr>) = cookies ?s"
    by simp
  from token_round_trip [OF a b c] a b show ?thesis
    by simp
qed

text \<open>
  C6, as stated, fails: a probe answered with 401 and a users list answered with 500 change
  nothing on the page, the request only leaves the list of requests in flight.
\<close>

theorem silent_failures_counterexample:
  "step compact_json (Reply 0 (Failure 401 Undefined)) after_users = after_users\<lparr>pending := []\<rparr> \<and>
   step compact_json (Reply 0 (Failure 500 Undefined)) after_login = after_login\<lparr>pending := []\<rparr>"
  by (simp add: pending_after_login pending_after_users deliver_def remove_nth_def
        unauthorized_def)

text \<open>
  C6, amended. When a sign-up request fails with a JSON body, the client writes
  \<^verbatim>\<open>Username <message>!\<close> and \<^verbatim>\<open>Password <message>!\<close> into the two error elements of the
  form and shows the one that the body's \<^verbatim>\<open>location\<close> names, hiding the other. A failed
  request other than the sign-up and the login changes nothing on the page: no inline
  message and no general notice.
\<close>

theorem failure_display:
  "(\<not> nullish responseJSON \<longrightarrow>
      errorsUser (signUp_error responseJSON s) =
        ''Username '' @ to_string (field responseJSON ''message'') @ ''!'' \<and>
      errorsPass (signUp_error responseJSON s) =
        ''Password '' @ to_string (field responseJSON ''message'') @ ''!'' \<and>
      (field responseJSON ''location'' = Str ''username'' \<longrightarrow>
         errorsUser_shown (signUp_error responseJSON s) \<and>
         \<not> errorsPass_shown (signUp_error responseJSON s)) \<and>
      (field responseJSON ''location'' = Str ''password'' \<longrightarrow>
         errorsPass_shown (signUp_error responseJSON s) \<and>
         \<not> errorsUser_shown (signUp_error responseJSON s))) \<and>
   (k < length (pending s) \<and> fst (pending s ! k) = SignUp \<longrightarrow>
      step J (Reply k (Failure status responseJSON)) s =
        signUp_error responseJSON (s\<lparr>pending := remove_nth k (pending s)\<rparr>)) \<and>
   (k < length (pending s) \<and> fst (pending s ! k) \<notin> {SignUp, Login} \<longrightarrow>
      step J (Reply k (Failure status responseJSON)) s =
        s\<lparr>pending := remove_nth k (pending s)\<rparr>)"
proof (intro conjI impI)
  assume "k < length (pending s) \<and> fst (pending s ! k) \<notin> {SignUp, Login}"
  then show "step J (Reply k (Failure status responseJSON)) s =
               s\<lparr>pending := remove_nth k (pending s)\<rparr>"
    by (cases "fst (pending s ! k)") (simp_all add: deliver_failure unauthorized_def)
qed (simp_all add: signUp_error_def Let_def strict_eq_Str deliver_failure)

theorem failure_display_witness:
  "\<not> nullish duplicate_username \<and>
   field duplicate_username ''location'' = Str ''username'' \<and>
   0 < length (pending after_signup) \<and> fst (pending after_signup ! 0) = SignUp \<and>
   errorsUser (step compact_json (Reply 0 (Failure 400 duplicate_username)) after_signup) =
     ''Username already taken!'' \<and>
   errorsUser_shown (step compact_json (Reply 0 (Failure 400 duplicate_username)) after_signup) \<and>
   \<not> errorsPass_shown (step compact_json (Reply 0 (Failure 400 duplicate_username)) after_signup) \<and>
   \<not> nullish weak_password \<and>
   field weak_password ''location'' = Str ''password'' \<and>
   errorsPass (signUp_error weak_password blank) = ''Password too short!'' \<and>
   errorsPass_shown (signUp_error weak_password blank) \<and>
   \<not> errorsUser_shown (signUp_error weak_password blank) \<and>
   0 < length (pending after_users) \<and> fst (pending after_users ! 0) \<notin> {SignUp, Login} \<and>
   step compact_json (Reply 0 (Failure 403 Undefined)) after_users =
     after_users\<lparr>pending := remove_nth 0 (pending after_users)\<rparr>"
proof -
  let ?s = "after_signup\<lparr>pending := remove_nth 0 (pending after_signup)\<rparr>"
  have a: "\<not> nullish duplicate_username" "\<not> nullish weak_password"
    by (simp_all add: duplicate_username_def weak_password_def nullish_def)
  have b: "field duplicate_username ''location'' = Str ''username''"
    "field weak_password ''location'' = Str ''password''"
    by (simp_all add: duplicate_username_def weak_password_def)
  have c: "to_string (field duplicate_username ''message'') = ''already taken''"
    "to_string (field weak_password ''message'') = ''too short''"
    by (simp_all add: duplicate_username_def weak_password_def)
  have d: "0 < length (pending after_signup) \<and> fst (pending after_signup ! 0) = SignUp"
    by code_simp
  have e: "0 < length (pending after_users) \<and> fst (pending after_users ! 0) \<notin> {SignUp, Login}"
    by code_simp
  from failure_display [where responseJSON = duplicate_username and s = after_signup and
         k = 0 and J = compact_json and status = 400] d
  have f: "step compact_json (Reply 0 (Failure 400 duplicate_username)) after_signup =
             signUp_error duplicate_username ?s"
    by blast
  from failure_display [where responseJSON = duplicate_username and s = ?s] a b c
  have g: "errorsUser (signUp_error duplicate_username ?s) = ''Username already taken!'' \<and>
           errorsUser_shown (signUp_error duplicate_username ?s) \<and>
           \<not> errorsPass_shown (signUp_error duplicate_username ?s)"
    by simp
  from failure_display [where responseJSON = weak_password and s = blank] a b c
  have h: "errorsPass (signUp_error weak_password blank) = ''Password too short!'' \<and>
           errorsPass_shown (signUp_error weak_password blank) \<and>
           \<not> errorsUser_shown (signUp_error weak_password blank)"
    by simp
  from failure_display [where responseJSON = Undefined and s = after_users and k = 0 and
         J = compact_json and status = 403] e
  have i: "step compact_json (Reply 0 (Failure 403 Undefined)) after_users =
             after_users\<lparr>pending := remove_nth 0 (pending after_users)\<rparr>"
    by blast
  from a b d e g h i show ?thesis
    unfolding f by blast
qed

text \<open>
  C7, as stated, fails: two submissions of the login form in a row put two login requests
  in flight.
\<close>

theorem double_login_counterexample:
  "map fst (pending (run compact_json [Load, Submit ''login'', Submit ''login''] blank)) =
     [Login, Login] \<and>
   map url (sent (run compact_json [Load, Submit ''login'', Submit ''login''] blank)) =
     [''/api/auth/login'', ''/api/auth/login'']"
  by code_simp

text \<open>
  C7, amended. Every submission of the login form, once the handler is bound, sends one
  \<^verbatim>\<open>POST /api/auth/login\<close>, whatever is in flight; the handler stays bound, so that a
  second submission during a slow login sends a second request.
\<close>

theorem login_submit_always_sends:
  assumes "submit_bound s"
  shows "step J (Submit ''login'') s = loginForm J s \<and>
         sent (step J (Submit ''login'') s) =
           sent s @ [\<lparr>req_type = POST, url = ''/api/auth/login'',
             data = Some (JSON_stringify J (Obj
               [(''username'', val s ''#username''), (''password'', val s ''#password'')])),
             headers = [], contentType = Some ''application/json''\<rparr>] \<and>
         map fst (pending (step J (Submit ''login'') s)) = map fst (pending s) @ [Login] \<and>
         submit_bound (step J (Submit ''login'') s)"
  using assms by (simp add: submit_def loginForm_def ajax_def)

theorem login_submit_always_sends_witness:
  "submit_bound (step compact_json (Submit ''login'') (load compact_json blank)) \<and>
   map fst (pending (step compact_json (Submit ''login'')
              (step compact_json (Submit ''login'') (load compact_json blank)))) =
     [Login, Login]"
proof -
  let ?s = "step compact_json (Submit ''login'') (load compact_json blank)"
  have bound: "submit_bound ?s"
    by code_simp
  have one: "map fst (pending ?s) = [Login]"
    by code_simp
  from login_submit_always_sends [OF bound, of compact_json]
  have "map fst (pending (step compact_json (Submit ''login'') ?s)) = map fst (pending ?s) @ [Login]"
    by blast
  then have two: "map fst (pending (step compact_json (Submit ''login'') ?s)) = [Login, Login]"
    unfolding one by (simp only: append_Cons append_Nil)
  from bound two show ?thesis
    by (rule conjI)
qed

text \<open>
  C8. When the created user comes back with its \<^verbatim>\<open>Assignments\<close> array, both versions of
  \<^verbatim>\<open>createList\<close> replace the content of \<^verbatim>\<open>.showAssignment\<close> by one item for each entry
  of the array, in the order of the array (the version of dash-teacher.js puts the username
  in front); each item shows the name and the date of its entry, so those of the new
  assignment are among them whenever the reply contains it.
\<close>

theorem assignments_rendered_in_order:
  assumes "\<forall>a\<in>set as. \<not> nullish a"
  shows \<open>showAssignment (createList userObj as s) = map (item_html userObj) as \<and>
         showAssignment (dash_createList userObj as s) =
           (''<h3>'' @ to_string (field userObj ''username'') @ ''</h3>'') # map dash_item_html as \<and>
         (field userObj ''Assignments'' = Arr as \<longrightarrow>
            on_success J AddItem_create userObj s = Some (createList userObj as s) \<and>
            on_success J Dash_create userObj s = Some (dash_createList userObj as s)) \<and>
         (\<exists>pre post. \<forall>a. item_html userObj a =
            pre @ to_string (field a ''assignmentName'') @ '' Date: '' @
            to_string (field a ''assignmentDate'') @ post) \<and>
         (\<exists>pre post. \<forall>a. dash_item_html a =
            pre @ to_string (field a ''assignmentName'') @
            ''</b> Due Date: <b class="assignmentColor">'' @
            to_string (field a ''assignmentDate'') @ post)\<close>
proof -
  from assms have
    "showAssignment (createList userObj as s) = map (item_html userObj) as"
    "showAssignment (dash_createList userObj as s) =
       (''<h3>'' @ to_string (field userObj ''username'') @ ''</h3>'') # map dash_item_html as"
    "field userObj ''Assignments'' = Arr as \<longrightarrow>
       on_success J AddItem_create userObj s = Some (createList userObj as s) \<and>
       on_success J Dash_create userObj s = Some (dash_createList userObj as s)"
    by (simp_all add: createList_def dash_createList_def createList_loop_items
          dash_createList_loop_items)
  with item_html_shape [of userObj] dash_item_html_shape show ?thesis
    by blast
qed

theorem assignments_rendered_in_order_witness:
  "\<not> nullish essay \<and> \<not> nullish scales \<and>
   showAssignment (createList user_bob [essay, scales] blank) =
     [item_html user_bob essay, item_html user_bob scales] \<and>
   showAssignment (dash_createList user_bob [essay, scales] blank) =
     [''<h3>bob</h3>'', dash_item_html essay, dash_item_html scales] \<and>
   field bob_assigned ''Assignments'' = Arr [essay, scales] \<and>
   map_option showAssignment (on_success compact_json AddItem_create bob_assigned blank) =
     Some [item_html bob_assigned essay, item_html bob_assigned scales]"
proof -
  have a: "\<forall>a\<in>set [essay, scales]. \<not> nullish a"
    by (simp add: essay_def scales_def nullish_def)
  have b: "to_string (field user_bob ''username'') = ''bob''"
    by (simp add: user_bob_def)
  have c: "field bob_assigned ''Assignments'' = Arr [essay, scales]"
    by (simp add: bob_assigned_def)
  from assignments_rendered_in_order [OF a, of user_bob blank]
       assignments_rendered_in_order [OF a, of bob_assigned blank compact_json] a b c
  show ?thesis
    by simp
qed

text \<open>
  C9. For every users list whose entries are objects, \<^verbatim>\<open>loadUsers\<close> sets the drop-down to
  one option for each user whose \<^verbatim>\<open>isAdmin\<close> is \<^verbatim>\<open>false\<close>, in the order of the list; the
  option has that user's username as its value and as its text. A user whose \<^verbatim>\<open>isAdmin\<close>
  is \<^verbatim>\<open>true\<close> gets no option.
\<close>

theorem students_dropdown:
  assumes "\<forall>u\<in>set users. \<not> nullish u"
  shows \<open>showStudents (loadUsers_success users s) =
           map option_html (filter (\<lambda>u. field u ''isAdmin'' = Bool False) users) \<and>
         on_success J LoadUsers (Arr users) s = Some (loadUsers_success users s) \<and>
         showStudents (loadUsers_success users s) =
           map (\<lambda>u. ''<option value="'' @ to_string (field u ''username'') @ ''">'' @
                     to_string (field u ''username'') @ ''</option>'')
             (filter (\<lambda>u. field u ''isAdmin'' = Bool False) users)\<close>
proof -
  from assms have a: "showStudents (loadUsers_success users s) =
           map option_html (filter (\<lambda>u. field u ''isAdmin'' = Bool False) users)"
    by (simp add: loadUsers_success_def loadUsers_loop_students)
  have \<open>option_html = (\<lambda>u. ''<option value="'' @ to_string (field u ''username'') @ ''">'' @
                     to_string (field u ''username'') @ ''</option>'')\<close>
    by (rule ext) (simp add: option_html_def)
  with a show ?thesis
    by simp
qed

theorem students_dropdown_witness:
  \<open>\<not> nullish user_ann \<and> \<not> nullish user_bob \<and>
   showStudents (loadUsers_success [user_ann, user_bob] blank) = [''<option value="bob">bob</option>'']\<close>
proof -
  have a: "\<forall>u\<in>set [user_ann, user_bob]. \<not> nullish u"
    by (simp add: user_ann_def user_bob_def nullish_def)
  from students_dropdown [OF a, of blank]
  have \<open>showStudents (loadUsers_success [user_ann, user_bob] blank) =
           map (\<lambda>u. ''<option value="'' @ to_string (field u ''username'') @ ''">'' @
                     to_string (field u ''username'') @ ''</option>'')
             (filter (\<lambda>u. field u ''isAdmin'' = Bool False) [user_ann, user_bob])\<close>
    by blast
  with a show ?thesis
    by (simp add: user_ann_def user_bob_def)
qed

text \<open>
  C10, as stated, fails for a cookie that is present with an empty value: the empty text
  is not JSON, yet \<open>restoreLoginToken\<close> returns normally, because the test
  \<^verbatim>\<open>if (savedTokenJSONStr)\<close> is false for the empty string.
\<close>

theorem empty_cookie_counterexample:
  "cookies (blank\<lparr>cookies := [''APP_TOKEN'' \<mapsto> []]\<rparr>) ''APP_TOKEN'' = Some [] \<and>
   JSON_parse compact_json [] = None \<and>
   restoreLoginToken compact_json (blank\<lparr>cookies := [''APP_TOKEN'' \<mapsto> []]\<rparr>) =
     Inr (blank\<lparr>cookies := [''APP_TOKEN'' \<mapsto> []]\<rparr>)"
proof -
  have "JSON_parse compact_json [] = None"
    by code_simp
  then show ?thesis
    by (simp add: restoreLoginToken_def)
qed

text \<open>
  C10, amended. If the \<^verbatim>\<open>APP_TOKEN\<close> cookie is present with a value that is not empty and
  not valid JSON, \<open>restoreLoginToken\<close> throws a SyntaxError instead of returning; the ready
  function ends there, the session token is unchanged and the submit handler is not bound.
  With an empty value it returns normally and changes nothing. It returns normally exactly
  when the cookie is missing, empty or valid JSON.
\<close>

theorem malformed_cookie:
  "(cookies s ''APP_TOKEN'' = Some text \<and> text \<noteq> [] \<and> JSON_parse J text = None \<longrightarrow>
      restoreLoginToken J s = Inl SyntaxError \<and> ready J s = throw SyntaxError s \<and>
      APP (ready J s) = APP s \<and> submit_bound (ready J s) = submit_bound s) \<and>
   (cookies s ''APP_TOKEN'' = Some [] \<longrightarrow> restoreLoginToken J s = Inr s) \<and>
   ((\<exists>s'. restoreLoginToken J s = Inr s') =
      (case cookies s ''APP_TOKEN'' of
         None \<Rightarrow> True
       | Some text \<Rightarrow> text = [] \<or> JSON_parse J text \<noteq> None))"
  by (auto simp: restoreLoginToken_def ready_def throw_def split: option.splits)

theorem malformed_cookie_witness:
  "cookies (blank\<lparr>cookies := [''APP_TOKEN'' \<mapsto> ''{oops'']\<rparr>) ''APP_TOKEN'' = Some ''{oops'' \<and>
   ''{oops'' \<noteq> [] \<and> JSON_parse compact_json ''{oops'' = None \<and>
   restoreLoginToken compact_json (blank\<lparr>cookies := [''APP_TOKEN'' \<mapsto> ''{oops'']\<rparr>) =
     Inl SyntaxError \<and>
   APP (ready compact_json (blank\<lparr>cookies := [''APP_TOKEN'' \<mapsto> ''{oops'']\<rparr>)) = APP blank \<and>
   \<not> submit_bound (ready compact_json (blank\<lparr>cookies := [''APP_TOKEN'' \<mapsto> ''{oops'']\<rparr>)) \<and>
   cookies (blank\<lparr>cookies := [''APP_TOKEN'' \<mapsto> []]\<rparr>) ''APP_TOKEN'' = Some [] \<and>
   restoreLoginToken compact_json (blank\<lparr>cookies := [''APP_TOKEN'' \<mapsto> []]\<rparr>) =
     Inr (blank\<lparr>cookies := [''APP_TOKEN'' \<mapsto> []]\<rparr>)"
proof -
  have a: "JSON_parse compact_json ''{oops'' = None"
    by code_simp
  have b: "cookies (blank\<lparr>cookies := [''APP_TOKEN'' \<mapsto> ''{oops'']\<rparr>) ''APP_TOKEN'' = Some ''{oops''"
    by simp
  have c: "cookies (blank\<lparr>cookies := [''APP_TOKEN'' \<mapsto> []]\<rparr>) ''APP_TOKEN'' = Some []"
    by simp
  have d: "\<not> submit_bound blank"
    by (simp add: blank_def)
  from malformed_cookie [of "blank\<lparr>cookies := [''APP_TOKEN'' \<mapsto> ''{oops'']\<rparr>" "''{oops''" compact_json]
       malformed_cookie [of "blank\<lparr>cookies := [''APP_TOKEN'' \<mapsto> []]\<rparr>" _ compact_json]
       a b c d show ?thesis
    by (simp add: throw_def)
qed

end
